theory Spec2Isabelle
  imports Main "HOL-Library.Multiset"
begin

section \<open>JavaScript strings\<close>

text \<open>
  A JavaScript string is modelled as a \<^typ>\<open>string\<close>: a list of characters, each
  character standing for one code unit. Every literal of the program is ASCII.
\<close>

definition startsWith :: "string \<Rightarrow> string \<Rightarrow> bool" where
  "startsWith s p = (take (length p) s = p)"

definition endsWith :: "string \<Rightarrow> string \<Rightarrow> bool" where
  "endsWith s p = (length p \<le> length s \<and> drop (length s - length p) s = p)"

text \<open>\<open>s.substring(n)\<close> for \<open>0 \<le> n\<close>: the string from index \<open>n\<close>, empty past the end.\<close>

definition substring :: "string \<Rightarrow> nat \<Rightarrow> string" where
  "substring s n = drop n s"

text \<open>
  \<open>s.split(c)\<close> for a one-character separator: the pieces between the separators;
  the empty string gives one empty piece.
\<close>

fun split_on :: "char \<Rightarrow> string \<Rightarrow> string list" where
  "split_on c [] = [[]]"
| "split_on c (x # xs) =
     (if x = c then [] # split_on c xs
      else (case split_on c xs of
              [] \<Rightarrow> [[x]]
            | p # ps \<Rightarrow> (x # p) # ps))"

section \<open>The AT-URL parser (\<open>validateUrl\<close> of the resolution facade)\<close>

text \<open>An \<open>Error\<close> object: its \<open>name\<close> and its \<open>message\<close>.\<close>

datatype js_error = JsError (name: string) (message: string)

abbreviation Error :: "string \<Rightarrow> js_error" where
  "Error msg \<equiv> JsError ''Error'' msg"

record at_url =
  "identifier" :: string
  collection :: "string option"
  rkey :: "string option"

text \<open>
  \<open>parts[i] || null\<close>: \<open>parts[i]\<close> is \<open>undefined\<close> past the end of the array, and both
  \<open>undefined\<close> and the empty string are falsy, so both give \<open>null\<close> (\<open>None\<close>).
\<close>

definition or_null :: "string list \<Rightarrow> nat \<Rightarrow> string option" where
  "or_null parts i =
     (if i < length parts \<and> parts ! i \<noteq> [] then Some (parts ! i) else None)"

text \<open>
  \<open>parts[0]\<close> is read without a default; on an empty array it would be \<open>undefined\<close>,
  a case the length check before it excludes.
\<close>

definition validateUrl :: "string \<Rightarrow> js_error + at_url" where
  "validateUrl url =
     (if \<not> startsWith url ''at://'' then Inl (Error ''URL must start with at://'')
      else
        let parts = split_on (CHR ''/'') (substring url 5) in
        if length parts < 1 then Inl (Error ''Invalid AT URL format'')
        else Inr \<lparr> identifier = parts ! 0,
                   collection = or_null parts 1,
                   rkey = or_null parts 2 \<rparr>)"

section \<open>Numbers, JSON values and their JavaScript readings\<close>

text \<open>Decimal digits of a natural number, as \<open>`${n}`\<close> prints a non-negative integer.\<close>

definition digit_char :: "nat \<Rightarrow> char" where
  "digit_char d = ''0123456789'' ! d"

fun decimal :: "nat \<Rightarrow> string" where
  "decimal n =
     (if 10 \<le> n then decimal (n div 10) @ [digit_char (n mod 10)] else [digit_char n])"

declare decimal.simps [simp del]

text \<open>The same for the integers a JSON number stands for.\<close>

definition number_to_string :: "int \<Rightarrow> string" where
  "number_to_string i =
     (if 0 \<le> i then decimal (nat i) else CHR ''-'' # decimal (nat (- i)))"

text \<open>\<open>parts.join(sep)\<close> on an array of strings.\<close>

fun join :: "string \<Rightarrow> string list \<Rightarrow> string" where
  "join sep [] = []"
| "join sep [x] = x"
| "join sep (x # y # ys) = x @ sep @ join sep (y # ys)"

text \<open>\<open>s.includes(sub)\<close>: \<open>sub\<close> occurs somewhere in \<open>s\<close>.\<close>

fun includes_str :: "string \<Rightarrow> string \<Rightarrow> bool" where
  "includes_str [] sub = (sub = [])"
| "includes_str (c # cs) sub = (startsWith (c # cs) sub \<or> includes_str cs sub)"

text \<open>
  \<open>s.trim()\<close>: white space and line terminators removed at both ends. Of the characters
  JavaScript counts as such, those below U+0100 are tab, line feed, vertical tab, form
  feed, carriage return, space and no-break space.
\<close>

definition is_space :: "char \<Rightarrow> bool" where
  "is_space c = (of_char c \<in> {9, 10, 11, 12, 13, 32, 160 :: nat})"

definition trim :: "string \<Rightarrow> string" where
  "trim s = rev (dropWhile is_space (rev (dropWhile is_space s)))"

text \<open>\<open>s.replace(/:/g, '/')\<close>.\<close>

definition replace_colons :: "string \<Rightarrow> string" where
  "replace_colons s = map (\<lambda>c. if c = CHR '':'' then CHR ''/'' else c) s"

text \<open>
  A value produced by \<open>response.json()\<close>. Numbers are taken to be integers; the program
  compares them with \<open>0\<close>, \<open>3\<close> and \<open>16\<close> and prints them. An object is the list of its
  own properties, first entry of a key first. \<open>undefined\<close> is not a JSON value: where a
  JavaScript expression can be \<open>undefined\<close> the model has an optional value.
\<close>

datatype json =
    JNull
  | JBool bool
  | JNum int
  | JStr string
  | JArr "json list"
  | JObj "(string \<times> json) list"

fun truthy :: "json \<Rightarrow> bool" where
  "truthy JNull = False"
| "truthy (JBool b) = b"
| "truthy (JNum n) = (n \<noteq> 0)"
| "truthy (JStr s) = (s \<noteq> [])"
| "truthy (JArr xs) = True"
| "truthy (JObj kvs) = True"

definition truthy_opt :: "json option \<Rightarrow> bool" where
  "truthy_opt v = (case v of None \<Rightarrow> False | Some j \<Rightarrow> truthy j)"

text \<open>
  Engine-raised errors; their message texts are the engine's and never reach a caller
  unchanged in a way the program depends on.
\<close>

abbreviation TypeError :: "string \<Rightarrow> js_error" where
  "TypeError msg \<equiv> JsError ''TypeError'' msg"

text \<open>
  \<open>v.k\<close> for the property names this program reads (\<open>error\<close>, \<open>did\<close>, \<open>Status\<close>, \<open>Answer\<close>,
  \<open>provider\<close>, \<open>type\<close>, \<open>data\<close>, \<open>service\<close>, \<open>serviceEndpoint\<close>), none of which is
  inherited from a prototype: reading a property of \<open>null\<close> throws, an object gives its own
  property, every other value gives \<open>undefined\<close>.
\<close>

fun get_prop :: "json \<Rightarrow> string \<Rightarrow> js_error + json option" where
  "get_prop JNull k =
     Inl (TypeError (''Cannot read properties of null (reading '' @ [CHR 0x27] @ k
                     @ [CHR 0x27] @ '')''))"
| "get_prop (JObj kvs) k = Inr (map_of kvs k)"
| "get_prop v k = Inr None"

text \<open>\<open>`${v}`\<close>: the string conversion of a value inside a template literal.\<close>

fun to_str :: "json \<Rightarrow> string" where
  "to_str JNull = ''null''"
| "to_str (JBool b) = (if b then ''true'' else ''false'')"
| "to_str (JNum n) = number_to_string n"
| "to_str (JStr s) = s"
| "to_str (JArr xs) = join '','' (map (\<lambda>x. if x = JNull then [] else to_str x) xs)"
| "to_str (JObj kvs) = ''[object Object]''"

definition to_str_opt :: "json option \<Rightarrow> string" where
  "to_str_opt v = (case v of None \<Rightarrow> ''undefined'' | Some j \<Rightarrow> to_str j)"

section \<open>The environment: network, clock and random numbers\<close>

text \<open>
  Every \<open>fetch\<close> of the program is recorded with the place that issued it. The answer of
  the network may depend on everything requested before. A rejected \<open>fetch\<close> (network
  failure, or the abort raised by the timeout timer) is \<open>Inl\<close>; the body readers
  \<open>response.json()\<close> and \<open>response.text()\<close> are part of the answer, each of them a value
  or a rejection.
\<close>

datatype origin = DnsQuery | WellKnownFetch | XrpcQuery | PlcLookup | RecordFetch | RemoteFetch

type_synonym request = "origin \<times> string"

record response =
  status :: nat
  json_body :: "js_error + json"
  text_body :: "js_error + string"

definition ok :: "response \<Rightarrow> bool" where
  "ok r = (200 \<le> status r \<and> status r \<le> 299)"

text \<open>
  \<open>date_now\<close> is \<open>Date.now()\<close>, read as a function of the requests issued so far.
  \<open>encodeURIComponent\<close> and \<open>url_with_params\<close> (\<open>new URL(u)\<close>, two \<open>searchParams.set\<close>,
  \<open>toString()\<close>) are the platform's encoders.
\<close>

record env =
  fetch :: "request list \<Rightarrow> request \<Rightarrow> js_error + response"
  date_now :: "request list \<Rightarrow> int"
  encodeURIComponent :: "string \<Rightarrow> string"
  url_with_params :: "string \<Rightarrow> (string \<times> string) list \<Rightarrow> string"

text \<open>The result of a handle resolution; the strategies fill different fields.\<close>

record resolution =
  did :: string
  "method" :: string
  endpoint :: "string option"
  provider :: "json option"

record handle_entry =
  data :: resolution
  timestamp :: int

datatype did_entry = DidEntry (serviceEndpoint: json) (cached_at: int)

text \<open>
  The mutable state: the log of requests, the supply of \<open>Math.random()\<close> outcomes still
  to come (each one stands for the index \<open>Math.floor(Math.random() * n)\<close> it selects,
  taken modulo \<open>n\<close>), and the two caches. A JavaScript \<open>Map\<close> is a list of entries with
  distinct keys in insertion order.
\<close>

record state =
  trace :: "request list"
  randoms :: "nat list"
  handle_cache :: "(string \<times> handle_entry) list"
  did_cache :: "(string \<times> did_entry) list"

definition do_fetch :: "env \<Rightarrow> request \<Rightarrow> state \<Rightarrow> (js_error + response) \<times> state" where
  "do_fetch e r s = (fetch e (trace s) r, s\<lparr>trace := trace s @ [r]\<rparr>)"

text \<open>
  The \<open>catch\<close> block shared by the resolvers:
  \<open>if (error.name === 'AbortError') throw new Error(msg); throw error;\<close>
\<close>

definition catch_abort :: "string \<Rightarrow> js_error + 'a \<Rightarrow> js_error + 'a" where
  "catch_abort msg r =
     (case r of
        Inl e \<Rightarrow> Inl (if name e = ''AbortError'' then Error msg else e)
      | Inr v \<Rightarrow> Inr v)"

text \<open>\<open>did && (did.startsWith('did:plc:') || did.startsWith('did:web:'))\<close> on a string.\<close>

definition isValidDid :: "string \<Rightarrow> bool" where
  "isValidDid d = (d \<noteq> [] \<and> (startsWith d ''did:plc:'' \<or> startsWith d ''did:web:''))"

section \<open>DNS strategy (\<open>DnsHandleResolver\<close>)\<close>

record doh_provider =
  provider_name :: string
  provider_url :: string
  acceptHeader :: string

definition DOH_PROVIDERS :: "doh_provider list" where
  "DOH_PROVIDERS =
     [\<lparr> provider_name = ''Google'', provider_url = ''https://dns.google/resolve'',
         acceptHeader = ''application/dns-json'' \<rparr>,
      \<lparr> provider_name = ''Cloudflare'', provider_url = ''https://cloudflare-dns.com/dns-query'',
         acceptHeader = ''application/dns-json'' \<rparr>]"

definition ATPROTO_PREFIX :: string where
  "ATPROTO_PREFIX = ''_atproto.''"

definition DID_PREFIX :: string where
  "DID_PREFIX = ''did=''"

text \<open>\<open>txtData.slice(1, -1)\<close>: without the first and the last character.\<close>

definition slice_1_m1 :: "string \<Rightarrow> string" where
  "slice_1_m1 s = drop 1 (take (length s - 1) s)"

text \<open>
  The values a \<open>for (const answer of answers)\<close> loop visits: the elements of an array,
  the characters of a string; any other value reaching the loop is not iterable.
  \<open>data.Answer || []\<close> has already replaced a falsy value by the empty array.
\<close>

definition answers_of :: "json option \<Rightarrow> js_error + json list" where
  "answers_of a =
     (if \<not> truthy_opt a then Inr []
      else (case a of
              Some (JArr xs) \<Rightarrow> Inr xs
            | Some (JStr s) \<Rightarrow> Inr (map (\<lambda>c. JStr [c]) s)
            | _ \<Rightarrow> Inl (TypeError ''answers is not iterable'')))"

text \<open>The loop over the answers of \<open>parseDnsResponse\<close>, with its final \<open>throw\<close>.\<close>

fun scan_answers :: "json \<Rightarrow> string \<Rightarrow> json list \<Rightarrow> js_error + resolution" where
  "scan_answers dat handle [] =
     Inl (Error (''No valid DID found in DNS records for handle: '' @ handle))"
| "scan_answers dat handle (answer # rest) =
     (case get_prop answer ''type'' of
        Inl e \<Rightarrow> Inl e
      | Inr ty \<Rightarrow>
          if ty = Some (JNum 16) then
            (case get_prop answer ''data'' of
               Inl e \<Rightarrow> Inl e
             | Inr (Some (JStr txt)) \<Rightarrow>
                 let txtData = (if startsWith txt [CHR 0x22] \<and> endsWith txt [CHR 0x22]
                                then slice_1_m1 txt else txt)
                 in if startsWith txtData DID_PREFIX then
                      let d = substring txtData (length DID_PREFIX)
                      in if isValidDid d then
                           (case get_prop dat ''provider'' of
                              Inl e \<Rightarrow> Inl e
                            | Inr pr \<Rightarrow>
                                Inr \<lparr> did = d, method = ''dns'', endpoint = None,
                                      provider =
                                        Some (case pr of
                                                None \<Rightarrow> JStr ''unknown''
                                              | Some j \<Rightarrow>
                                                  if truthy j then j else JStr ''unknown'') \<rparr>)
                         else scan_answers dat handle rest
                    else scan_answers dat handle rest
             | Inr _ \<Rightarrow> Inl (TypeError ''txtData.startsWith is not a function''))
          else scan_answers dat handle rest)"

definition parseDnsResponse :: "json \<Rightarrow> string \<Rightarrow> js_error + resolution" where
  "parseDnsResponse dat handle =
     (case get_prop dat ''Status'' of
        Inl e \<Rightarrow> Inl e
      | Inr st \<Rightarrow>
          if st \<noteq> Some (JNum 0) then
            (if st = Some (JNum 3)
             then Inl (Error (''No DNS record found for handle: '' @ handle))
             else Inl (Error (''DNS error: '' @ to_str_opt st)))
          else
            (case get_prop dat ''Answer'' of
               Inl e \<Rightarrow> Inl e
             | Inr a \<Rightarrow>
                 (case answers_of a of
                    Inl e \<Rightarrow> Inl e
                  | Inr answers \<Rightarrow> scan_answers dat handle answers)))"

definition queryProvider ::
  "env \<Rightarrow> doh_provider \<Rightarrow> string \<Rightarrow> state \<Rightarrow> (js_error + resolution) \<times> state" where
  "queryProvider e p handle s =
     (let u = url_with_params e (provider_url p)
                [(''name'', ATPROTO_PREFIX @ handle), (''type'', ''TXT'')];
          (r, s1) = do_fetch e (DnsQuery, u) s
      in (catch_abort ''DNS query timeout''
            (case r of
               Inl err \<Rightarrow> Inl err
             | Inr resp \<Rightarrow>
                 if \<not> ok resp
                 then Inl (Error (''DNS query failed: '' @ decimal (status resp)))
                 else (case json_body resp of
                         Inl err \<Rightarrow> Inl err
                       | Inr dat \<Rightarrow> parseDnsResponse dat handle)),
          s1))"

text \<open>
  \<open>providers.map(p => queryProvider(p, handle).catch(() => null))\<close>: every provider is
  queried, in the order of the list, and a rejection becomes \<open>null\<close>.
\<close>

fun query_providers ::
  "env \<Rightarrow> doh_provider list \<Rightarrow> string \<Rightarrow> state \<Rightarrow> resolution option list \<times> state" where
  "query_providers e [] handle s = ([], s)"
| "query_providers e (p # ps) handle s =
     (let (r, s1) = queryProvider e p handle s;
          (rs, s2) = query_providers e ps handle s1
      in ((case r of Inl err \<Rightarrow> None | Inr v \<Rightarrow> Some v) # rs, s2))"

text \<open>The first fulfilled, non-null result in provider order, else the strategy's error.\<close>

definition DnsHandleResolver_resolve ::
  "env \<Rightarrow> string \<Rightarrow> state \<Rightarrow> (js_error + resolution) \<times> state" where
  "DnsHandleResolver_resolve e handle s =
     (let (results, s1) = query_providers e DOH_PROVIDERS handle s
      in (case List.find (\<lambda>r. r \<noteq> None) results of
            Some (Some v) \<Rightarrow> (Inr v, s1)
          | _ \<Rightarrow> (Inl (Error (''DNS resolution failed for handle: '' @ handle)), s1)))"

section \<open>Well-known strategy (\<open>WellKnownHandleResolver\<close>)\<close>

definition WellKnown_parseResponse :: "string \<Rightarrow> string \<Rightarrow> js_error + string" where
  "WellKnown_parseResponse text handle =
     (let d = hd (split_on (CHR 0x0A) (trim text))
      in if d = [] then Inl (Error (''Empty well-known response for handle: '' @ handle))
         else if \<not> isValidDid d then Inl (Error (''Invalid DID in well-known response: '' @ d))
         else Inr d)"

definition WellKnownHandleResolver_resolve ::
  "env \<Rightarrow> string \<Rightarrow> state \<Rightarrow> (js_error + resolution) \<times> state" where
  "WellKnownHandleResolver_resolve e handle s =
     (let u = ''https://'' @ handle @ ''/.well-known/atproto-did'';
          (r, s1) = do_fetch e (WellKnownFetch, u) s
      in (catch_abort ''Well-known fetch timeout''
            (case r of
               Inl err \<Rightarrow> Inl err
             | Inr resp \<Rightarrow>
                 if 300 \<le> status resp \<and> status resp < 400
                 then Inl (Error ''Redirects not allowed for well-known resolution'')
                 else if \<not> ok resp then
                   (if status resp = 404
                    then Inl (Error (''No well-known record found for handle: '' @ handle))
                    else Inl (Error (''HTTP '' @ decimal (status resp)
                                     @ '': Failed to fetch well-known'')))
                 else (case text_body resp of
                         Inl err \<Rightarrow> Inl err
                       | Inr text \<Rightarrow>
                           (case WellKnown_parseResponse text handle of
                              Inl err \<Rightarrow> Inl err
                            | Inr d \<Rightarrow> Inr \<lparr> did = d, method = ''wellknown'',
                                              endpoint = None, provider = None \<rparr>))),
          s1))"

section \<open>The catalogue of PDS endpoints\<close>

record pds_endpoints =
  primary :: string
  regions :: "(string \<times> string list) list"
  custom :: "string list"

definition PDS_ENDPOINTS :: pds_endpoints where
  "PDS_ENDPOINTS =
     \<lparr> primary = ''https://public.api.bsky.app'',
       regions =
         [(''usEast'',
           [
            ''amanita.us-east.host.bsky.network'', ''blusher.us-east.host.bsky.network'',
            ''coral.us-east.host.bsky.network'', ''earthstar.us-east.host.bsky.network'',
            ''elfcup.us-east.host.bsky.network'', ''enoki.us-east.host.bsky.network'',
            ''helvella.us-east.host.bsky.network'', ''inkcap.us-east.host.bsky.network'',
            ''lionsmane.us-east.host.bsky.network'', ''lobster.us-east.host.bsky.network'',
            ''meadow.us-east.host.bsky.network'', ''morel.us-east.host.bsky.network'',
            ''oyster.us-east.host.bsky.network'', ''panthercap.us-east.host.bsky.network'',
            ''parasol.us-east.host.bsky.network'', ''porcini.us-east.host.bsky.network'',
            ''puffball.us-east.host.bsky.network'', ''reishi.us-east.host.bsky.network'',
            ''scarletina.us-east.host.bsky.network'', ''shiitake.us-east.host.bsky.network'',
            ''shimeji.us-east.host.bsky.network'', ''splitgill.us-east.host.bsky.network'',
            ''truffle.us-east.host.bsky.network'', ''velvetfoot.us-east.host.bsky.network''
           ]),
          (''usWest'',
           [
            ''agaric.us-west.host.bsky.network'', ''agrocybe.us-west.host.bsky.network'',
            ''bankera.us-west.host.bsky.network'', ''blewit.us-west.host.bsky.network'',
            ''boletus.us-west.host.bsky.network'', ''bracket.us-west.host.bsky.network'',
            ''brittlegill.us-west.host.bsky.network'', ''button.us-west.host.bsky.network'',
            ''calocybe.us-west.host.bsky.network'', ''chaga.us-west.host.bsky.network'',
            ''chanterelle.us-west.host.bsky.network'', ''conocybe.us-west.host.bsky.network'',
            ''cordyceps.us-west.host.bsky.network'', ''cortinarius.us-west.host.bsky.network'',
            ''cremini.us-west.host.bsky.network'', ''dapperling.us-west.host.bsky.network'',
            ''entoloma.us-west.host.bsky.network'', ''fibercap.us-west.host.bsky.network'',
            ''fuzzyfoot.us-west.host.bsky.network'', ''ganoderma.us-west.host.bsky.network'',
            ''goldenear.us-west.host.bsky.network'', ''gomphidius.us-west.host.bsky.network'',
            ''gomphus.us-west.host.bsky.network'', ''grisette.us-west.host.bsky.network'',
            ''hebeloma.us-west.host.bsky.network'', ''hedgehog.us-west.host.bsky.network'',
            ''hollowfoot.us-west.host.bsky.network'', ''hydnum.us-west.host.bsky.network'',
            ''hygrophorus.us-west.host.bsky.network'', ''leccinum.us-west.host.bsky.network'',
            ''lepista.us-west.host.bsky.network'', ''magic.us-west.host.bsky.network'',
            ''maitake.us-west.host.bsky.network'', ''matsutake.us-west.host.bsky.network'',
            ''mazegill.us-west.host.bsky.network'', ''milkcap.us-west.host.bsky.network'',
            ''mottlegill.us-west.host.bsky.network'', ''mycena.us-west.host.bsky.network'',
            ''oysterling.us-west.host.bsky.network'', ''panus.us-west.host.bsky.network'',
            ''pholiota.us-west.host.bsky.network'', ''pioppino.us-west.host.bsky.network'',
            ''poisonpie.us-west.host.bsky.network'', ''polypore.us-west.host.bsky.network'',
            ''psathyrella.us-west.host.bsky.network'', ''rooter.us-west.host.bsky.network'',
            ''russula.us-west.host.bsky.network'', ''scalycap.us-west.host.bsky.network'',
            ''shaggymane.us-west.host.bsky.network'', ''stinkhorn.us-west.host.bsky.network'',
            ''suillus.us-west.host.bsky.network'', ''verpa.us-west.host.bsky.network'',
            ''waxcap.us-west.host.bsky.network'', ''witchesbutter.us-west.host.bsky.network'',
            ''woodear.us-west.host.bsky.network'', ''woodtuft.us-west.host.bsky.network'',
            ''yellowfoot.us-west.host.bsky.network''
           ])],
       custom = [] \<rparr>"

text \<open>\<open>for (const region in regions) allServers.push(...regions[region])\<close>.\<close>

definition getAllServers :: "pds_endpoints \<Rightarrow> string list" where
  "getAllServers pds = concat (map snd (regions pds))"

text \<open>
  \<open>allServers[Math.floor(Math.random() * allServers.length)]\<close>, or \<open>null\<close> for an empty
  pool; \<open>r\<close> is the outcome of \<open>Math.random()\<close> as described with the state.
\<close>

definition getRandomServerFromAll :: "pds_endpoints \<Rightarrow> nat \<Rightarrow> string option" where
  "getRandomServerFromAll pds r =
     (let allServers = getAllServers pds
      in if length allServers = 0 then None
         else Some (allServers ! (r mod length allServers)))"

section \<open>Directory strategy (\<open>XrpcHandleResolver\<close>)\<close>

definition Xrpc_parseResponse :: "json \<Rightarrow> string \<Rightarrow> js_error + string" where
  "Xrpc_parseResponse dat handle =
     (if \<not> truthy dat \<or> \<not> (case dat of JArr _ \<Rightarrow> True | JObj _ \<Rightarrow> True | _ \<Rightarrow> False)
      then Inl (Error (''Invalid XRPC response for handle: '' @ handle))
      else
        (case get_prop dat ''did'' of
           Inl e \<Rightarrow> Inl e
         | Inr d \<Rightarrow>
             if \<not> truthy_opt d
             then Inl (Error (''No DID in XRPC response for handle: '' @ handle))
             else (case d of
                     Some (JStr ds) \<Rightarrow>
                       if \<not> isValidDid ds
                       then Inl (Error (''Invalid DID in XRPC response: '' @ ds))
                       else Inr ds
                   | _ \<Rightarrow> Inl (TypeError ''did.startsWith is not a function''))))"

definition queryEndpoint ::
  "env \<Rightarrow> string \<Rightarrow> string \<Rightarrow> state \<Rightarrow> (js_error + resolution) \<times> state" where
  "queryEndpoint e baseUrl handle s =
     (let u = baseUrl @ ''/xrpc/com.atproto.identity.resolveHandle?handle=''
                @ encodeURIComponent e handle;
          (r, s1) = do_fetch e (XrpcQuery, u) s
      in (catch_abort ''XRPC query timeout''
            (case r of
               Inl err \<Rightarrow> Inl err
             | Inr resp \<Rightarrow>
                 if \<not> ok resp then
                   (if status resp = 400 then
                      (let error = (case json_body resp of Inl _ \<Rightarrow> JObj [] | Inr j \<Rightarrow> j)
                       in case get_prop error ''error'' of
                            Inl err \<Rightarrow> Inl err
                          | Inr v \<Rightarrow>
                              if v = Some (JStr ''InvalidHandle'')
                              then Inl (Error (''Invalid handle format: '' @ handle))
                              else Inl (Error (''Handle not found: '' @ handle)))
                    else Inl (Error (''HTTP '' @ decimal (status resp)
                                     @ '': XRPC query failed'')))
                 else (case json_body resp of
                         Inl err \<Rightarrow> Inl err
                       | Inr dat \<Rightarrow>
                           (case Xrpc_parseResponse dat handle of
                              Inl err \<Rightarrow> Inl err
                            | Inr d \<Rightarrow> Inr \<lparr> did = d, method = ''xrpc'',
                                              endpoint = Some baseUrl, provider = None \<rparr>))),
          s1))"

text \<open>
  The inner \<open>do \<dots> while\<close> loop: draw until the server is new or every server has been
  tried. It has no bound of its own; the model stops with \<open>None\<close> when the supply of
  random outcomes is used up. \<open>tried\<close> is the \<open>Set\<close> of servers tried, in insertion order.
\<close>

fun draw_server ::
  "pds_endpoints \<Rightarrow> string list \<Rightarrow> string list \<Rightarrow> nat list
     \<Rightarrow> (string option \<times> nat list) option" where
  "draw_server pds allServers tried [] = None"
| "draw_server pds allServers tried (r # rs) =
     (let server = getRandomServerFromAll pds r
      in if (case server of None \<Rightarrow> False | Some sv \<Rightarrow> sv \<in> set tried)
            \<and> length tried < length allServers
         then draw_server pds allServers tried rs
         else Some (server, rs))"

text \<open>
  The \<open>for\<close> loop over the attempts, with the \<open>throw\<close> that follows it; \<open>k\<close> counts the
  iterations still to run (\<open>attempts - i\<close>). \<open>if (!server || triedServers.has(server)) break\<close>
  leaves the loop for \<open>null\<close>, for the empty host name and for a host already tried. The
  outcome is \<open>None\<close> when the random supply ran out inside the inner loop.
\<close>

fun try_servers ::
  "env \<Rightarrow> pds_endpoints \<Rightarrow> string \<Rightarrow> string list \<Rightarrow> nat \<Rightarrow> string list \<Rightarrow> state
     \<Rightarrow> (js_error + resolution) option \<times> state" where
  "try_servers e pds handle allServers 0 tried s =
     (Some (Inl (Error (''XRPC resolution failed for handle: '' @ handle))), s)"
| "try_servers e pds handle allServers (Suc k) tried s =
     (case draw_server pds allServers tried (randoms s) of
        None \<Rightarrow> (None, s\<lparr>randoms := []\<rparr>)
      | Some (server, rs) \<Rightarrow>
          (case server of
             None \<Rightarrow>
               (Some (Inl (Error (''XRPC resolution failed for handle: '' @ handle))),
                s\<lparr>randoms := rs\<rparr>)
           | Some sv \<Rightarrow>
               if sv = [] \<or> sv \<in> set tried
               then (Some (Inl (Error (''XRPC resolution failed for handle: '' @ handle))),
                     s\<lparr>randoms := rs\<rparr>)
               else
                 (case queryEndpoint e (''https://'' @ sv) handle (s\<lparr>randoms := rs\<rparr>) of
                    (Inr result, s1) \<Rightarrow> (Some (Inr result), s1)
                  | (Inl err, s1) \<Rightarrow>
                      try_servers e pds handle allServers k (tried @ [sv]) s1)))"

definition XrpcHandleResolver_resolve ::
  "env \<Rightarrow> pds_endpoints \<Rightarrow> string \<Rightarrow> state \<Rightarrow> (js_error + resolution) option \<times> state" where
  "XrpcHandleResolver_resolve e pds handle s =
     (case queryEndpoint e (primary pds) handle s of
        (Inr result, s1) \<Rightarrow> (Some (Inr result), s1)
      | (Inl err, s1) \<Rightarrow>
          (let allServers = getAllServers pds
           in if length allServers = 0
              then (Some (Inl (Error ''No PDS servers available'')), s1)
              else try_servers e pds handle allServers (min 5 (length allServers)) [] s1))"

section \<open>Handle resolver (\<open>UnifiedHandleResolver\<close>)\<close>

text \<open>\<open>Map.prototype.set\<close>: an existing key keeps its place, a new key goes last.\<close>

fun map_set :: "'k \<Rightarrow> 'v \<Rightarrow> ('k \<times> 'v) list \<Rightarrow> ('k \<times> 'v) list" where
  "map_set k v [] = [(k, v)]"
| "map_set k v (p # ps) = (if fst p = k then (k, v) # ps else p # map_set k v ps)"

definition map_delete :: "'k \<Rightarrow> ('k \<times> 'v) list \<Rightarrow> ('k \<times> 'v) list" where
  "map_delete k m = filter (\<lambda>p. fst p \<noteq> k) m"

text \<open>The facade builds the resolver with \<open>cacheTTL: 5 * 60 * 1000\<close>.\<close>

definition cacheTTL :: int where
  "cacheTTL = 5 * 60 * 1000"

definition getFromCache :: "env \<Rightarrow> string \<Rightarrow> state \<Rightarrow> resolution option \<times> state" where
  "getFromCache e handle s =
     (case map_of (handle_cache s) handle of
        None \<Rightarrow> (None, s)
      | Some cached \<Rightarrow>
          let now = date_now e (trace s)
          in if now - timestamp cached > cacheTTL
             then (None, s\<lparr>handle_cache := map_delete handle (handle_cache s)\<rparr>)
             else (Some (data cached), s))"

text \<open>
  \<open>entries.sort((a, b) => a[1].timestamp - b[1].timestamp)\<close> is a stable ascending sort
  on the timestamp, as \<^const>\<open>sort_key\<close> is. \<open>Math.floor(entries.length * 0.2)\<close> is
  computed in double precision; for every length below \<open>2 ^ 52\<close> it is the integer
  quotient by five.
\<close>

definition cacheResult :: "env \<Rightarrow> string \<Rightarrow> resolution \<Rightarrow> state \<Rightarrow> state" where
  "cacheResult e handle result s =
     (let c1 = map_set handle \<lparr> data = result, timestamp = date_now e (trace s) \<rparr>
                 (handle_cache s)
      in if length c1 > 1000 then
           (let entries = sort_key (\<lambda>p. timestamp (snd p)) c1;
                toRemove = length entries div 5
            in s\<lparr>handle_cache := fold map_delete (map fst (take toRemove entries)) c1\<rparr>)
         else s\<lparr>handle_cache := c1\<rparr>)"

text \<open>\<open>errors.map(e => `${e.method}: ${e.error}`).join(', ')\<close> inside the final message.\<close>

definition errorDetails :: "(string \<times> string) list \<Rightarrow> string" where
  "errorDetails errors = join '', '' (map (\<lambda>(m, err). m @ '': '' @ err) errors)"

definition failed_to_resolve :: "string \<Rightarrow> (string \<times> string) list \<Rightarrow> js_error" where
  "failed_to_resolve handle errors =
     Error (''Failed to resolve handle '' @ [CHR 0x22] @ handle @ [CHR 0x22] @ '' - ''
            @ errorDetails errors)"

text \<open>
  The three attempts of \<open>resolve\<close>, each a step on the pair of \<open>result\<close> and \<open>errors\<close>.
  The outcome of the whole call is \<open>None\<close> when the directory strategy did not come back.
\<close>

definition attempt_dns ::
  "env \<Rightarrow> string \<Rightarrow> state \<Rightarrow> (resolution option \<times> (string \<times> string) list) \<times> state" where
  "attempt_dns e handle s =
     (if \<not> endsWith handle ''.bsky.social'' then
        (case DnsHandleResolver_resolve e handle s of
           (Inr r, s1) \<Rightarrow> ((Some r, []), s1)
         | (Inl err, s1) \<Rightarrow> ((None, [(''dns'', message err)]), s1))
      else ((None, []), s))"

definition attempt_wellknown ::
  "env \<Rightarrow> string \<Rightarrow> resolution option \<times> (string \<times> string) list \<Rightarrow> state
     \<Rightarrow> (resolution option \<times> (string \<times> string) list) \<times> state" where
  "attempt_wellknown e handle acc s =
     (if fst acc = None \<and> \<not> endsWith handle ''.bsky.social'' then
        (case WellKnownHandleResolver_resolve e handle s of
           (Inr r, s1) \<Rightarrow> ((Some r, snd acc), s1)
         | (Inl err, s1) \<Rightarrow> ((None, snd acc @ [(''wellknown'', message err)]), s1))
      else (acc, s))"

definition attempt_xrpc ::
  "env \<Rightarrow> pds_endpoints \<Rightarrow> string \<Rightarrow> resolution option \<times> (string \<times> string) list \<Rightarrow> state
     \<Rightarrow> (resolution option \<times> (string \<times> string) list) option \<times> state" where
  "attempt_xrpc e pds handle acc s =
     (if fst acc = None then
        (case XrpcHandleResolver_resolve e pds handle s of
           (None, s1) \<Rightarrow> (None, s1)
         | (Some (Inr r), s1) \<Rightarrow> (Some (Some r, snd acc), s1)
         | (Some (Inl err), s1) \<Rightarrow> (Some (None, snd acc @ [(''xrpc'', message err)]), s1))
      else (Some acc, s))"

definition UnifiedHandleResolver_resolve ::
  "env \<Rightarrow> pds_endpoints \<Rightarrow> string \<Rightarrow> state \<Rightarrow> (js_error + resolution) option \<times> state" where
  "UnifiedHandleResolver_resolve e pds handle s =
     (case getFromCache e handle s of
        (Some cached, s0) \<Rightarrow> (Some (Inr cached), s0)
      | (None, s0) \<Rightarrow>
          (let (acc1, s1) = attempt_dns e handle s0;
               (acc2, s2) = attempt_wellknown e handle acc1 s1
           in case attempt_xrpc e pds handle acc2 s2 of
                (None, s3) \<Rightarrow> (None, s3)
              | (Some (None, errors), s3) \<Rightarrow> (Some (Inl (failed_to_resolve handle errors)), s3)
              | (Some (Some result, errors), s3) \<Rightarrow>
                  (Some (Inr result), cacheResult e handle result s3)))"

definition clearCache :: "state \<Rightarrow> state" where
  "clearCache s = s\<lparr>handle_cache := []\<rparr>"

section \<open>The resolution facade (\<open>atpiResolver\<close>)\<close>

definition DEFAULT_BASE_URL :: string where
  "DEFAULT_BASE_URL = ''https://atpi.''"

definition CACHE_TTL :: int where
  "CACHE_TTL = 5 * 60 * 1000"

text \<open>
  The options object: \<open>mode\<close> and \<open>baseUrl\<close> may be absent. The \<open>timeout\<close> option only
  sets the delay of the abort timer; whether a request is aborted is the environment's
  answer, so the number is not carried.
\<close>

record options =
  mode :: "string option"
  baseUrl :: "string option"

datatype parsed_identifier = Did string | Handle string

definition parseIdentifier :: "string \<Rightarrow> parsed_identifier" where
  "parseIdentifier i = (if startsWith i ''did:'' then Did i else Handle i)"

definition resolveHandle ::
  "env \<Rightarrow> pds_endpoints \<Rightarrow> string \<Rightarrow> state \<Rightarrow> (js_error + string) option \<times> state" where
  "resolveHandle e pds handle s =
     (case UnifiedHandleResolver_resolve e pds handle s of
        (None, s1) \<Rightarrow> (None, s1)
      | (Some (Inr result), s1) \<Rightarrow> (Some (Inr (did result)), s1)
      | (Some (Inl err), s1) \<Rightarrow>
          if includes_str (message err) ''Failed to resolve handle''
          then (Some (Inl (Error (''Handle '' @ [CHR 0x22] @ handle @ [CHR 0x22]
                                  @ '' not found - user may not exist''))), s1)
          else (Some (Inl err), s1))"

definition fetchWithTimeout :: "env \<Rightarrow> request \<Rightarrow> state \<Rightarrow> (js_error + response) \<times> state" where
  "fetchWithTimeout e r s =
     (let (res, s1) = do_fetch e r s
      in (case res of
            Inl err \<Rightarrow> Inl (if name err = ''AbortError'' then Error ''Request timeout'' else err)
          | Inr resp \<Rightarrow> Inr resp,
          s1))"

text \<open>
  \<open>data.service?.find(s => s.type === 'AtprotoPersonalDataServer')\<close>: the first element
  of the array whose \<open>type\<close> is that string; reading \<open>type\<close> of a \<open>null\<close> element throws.
\<close>

fun find_service :: "json list \<Rightarrow> js_error + json option" where
  "find_service [] = Inr None"
| "find_service (x # xs) =
     (case get_prop x ''type'' of
        Inl e \<Rightarrow> Inl e
      | Inr ty \<Rightarrow>
          if ty = Some (JStr ''AtprotoPersonalDataServer'') then Inr (Some x)
          else find_service xs)"

definition service_of :: "json \<Rightarrow> js_error + json option" where
  "service_of dat =
     (case get_prop dat ''service'' of
        Inl e \<Rightarrow> Inl e
      | Inr None \<Rightarrow> Inr None
      | Inr (Some JNull) \<Rightarrow> Inr None
      | Inr (Some (JArr xs)) \<Rightarrow> find_service xs
      | Inr (Some _) \<Rightarrow> Inl (TypeError ''data.service?.find is not a function''))"

definition resolveDid :: "env \<Rightarrow> string \<Rightarrow> state \<Rightarrow> (js_error + json) \<times> state" where
  "resolveDid e d s =
     (case (case map_of (did_cache s) d of
              Some cached \<Rightarrow>
                if date_now e (trace s) - cached_at cached < CACHE_TTL
                then Some (serviceEndpoint cached) else None
            | None \<Rightarrow> None) of
        Some ep \<Rightarrow> (Inr ep, s)
      | None \<Rightarrow>
          if startsWith d ''did:plc:'' then
            (case fetchWithTimeout e (PlcLookup, ''https://plc.directory/'' @ d) s of
               (Inl err, s1) \<Rightarrow> (Inl err, s1)
             | (Inr resp, s1) \<Rightarrow>
                 if \<not> ok resp
                 then (Inl (Error (''DID '' @ [CHR 0x22] @ d @ [CHR 0x22]
                                   @ '' not found or inaccessible'')), s1)
                 else
                   (case json_body resp of
                      Inl err \<Rightarrow> (Inl err, s1)
                    | Inr dat \<Rightarrow>
                        (case service_of dat of
                           Inl err \<Rightarrow> (Inl err, s1)
                         | Inr service \<Rightarrow>
                             (case (case service of
                                      None \<Rightarrow> Inr None
                                    | Some sv \<Rightarrow> get_prop sv ''serviceEndpoint'') of
                                Inl err \<Rightarrow> (Inl err, s1)
                              | Inr None \<Rightarrow>
                                  (Inl (Error ''No AT Protocol server found for this DID''), s1)
                              | Inr (Some ep) \<Rightarrow>
                                  if \<not> truthy ep
                                  then (Inl (Error ''No AT Protocol server found for this DID''), s1)
                                  else
                                    (Inr ep,
                                     s1\<lparr>did_cache :=
                                          map_set d (DidEntry ep (date_now e (trace s1)))
                                            (did_cache s1)\<rparr>)))))
          else if startsWith d ''did:web:'' then
            (Inr (JStr (''https://'' @ replace_colons (substring d 8))), s)
          else (Inl (Error (''Unsupported DID method: '' @ d)), s))"

text \<open>
  \<open>parsed.collection\<close> and \<open>parsed.rkey\<close> in a condition and inside a template literal.
\<close>

definition str_truthy :: "string option \<Rightarrow> bool" where
  "str_truthy v = (case v of None \<Rightarrow> False | Some x \<Rightarrow> x \<noteq> [])"

definition str_or_null :: "string option \<Rightarrow> string" where
  "str_or_null v = (case v of None \<Rightarrow> ''null'' | Some x \<Rightarrow> x)"

definition local_status_error :: "nat \<Rightarrow> js_error" where
  "local_status_error st =
     (if st = 400 then Error ''Invalid AT Protocol URL or record not found''
      else if st = 404 then Error ''Record not found at this AT Protocol URL''
      else if st = 401 \<or> st = 403 then Error ''Access denied - this record may be private''
      else if st \<ge> 500 then Error ''Server error - the AT Protocol service is unavailable''
      else Error (''Failed to resolve URL (HTTP '' @ decimal st @ '')''))"

definition remote_status_error :: "nat \<Rightarrow> js_error" where
  "remote_status_error st =
     (if st = 400 then Error ''Invalid AT Protocol URL or record not found''
      else if st = 404 then Error ''Record not found at this AT Protocol URL''
      else if st = 401 \<or> st = 403 then Error ''Access denied - this record may be private''
      else if st \<ge> 500 then Error ''ATPI service error - please try again later''
      else Error (''Failed to resolve URL (HTTP '' @ decimal st @ '')''))"

definition resolveLocal ::
  "env \<Rightarrow> pds_endpoints \<Rightarrow> string \<Rightarrow> options \<Rightarrow> state \<Rightarrow> (js_error + json) option \<times> state" where
  "resolveLocal e pds u opts s =
     (case validateUrl u of
        Inl err \<Rightarrow> (Some (Inl err), s)
      | Inr parsed \<Rightarrow>
          (case (case parseIdentifier (identifier parsed) of
                   Did v \<Rightarrow> (Some (Inr v), s)
                 | Handle v \<Rightarrow> resolveHandle e pds v s) of
             (None, s1) \<Rightarrow> (None, s1)
           | (Some (Inl err), s1) \<Rightarrow> (Some (Inl err), s1)
           | (Some (Inr d), s1) \<Rightarrow>
               (case resolveDid e d s1 of
                  (Inl err, s2) \<Rightarrow> (Some (Inl err), s2)
                | (Inr ep, s2) \<Rightarrow>
                    (let xrpcUrl =
                       (if str_truthy (collection parsed) \<and> str_truthy (rkey parsed) then
                          to_str ep @ ''/xrpc/com.atproto.repo.getRecord?repo='' @ d
                          @ ''&collection='' @ str_or_null (collection parsed)
                          @ ''&rkey='' @ str_or_null (rkey parsed)
                        else if str_truthy (collection parsed) then
                          to_str ep @ ''/xrpc/com.atproto.repo.listRecords?repo='' @ d
                          @ ''&collection='' @ str_or_null (collection parsed) @ ''&limit=50''
                        else
                          to_str ep @ ''/xrpc/com.atproto.repo.describeRepo?repo='' @ d)
                     in case fetchWithTimeout e (RecordFetch, xrpcUrl) s2 of
                          (Inl err, s3) \<Rightarrow> (Some (Inl err), s3)
                        | (Inr resp, s3) \<Rightarrow>
                            if \<not> ok resp
                            then (Some (Inl (local_status_error (status resp))), s3)
                            else (Some (json_body resp), s3)))))"

text \<open>
  The replacement string of \<open>String.prototype.replace\<close> is a template: \<open>$$\<close> stands for
  a dollar sign, \<open>$&\<close> for the match, \<open>$`\<close> and \<open>$'\<close> for the text before and after it;
  the pattern has no groups, so every other \<open>$\<close> stands for itself.
\<close>

fun get_substitution :: "string \<Rightarrow> string \<Rightarrow> string \<Rightarrow> string \<Rightarrow> string" where
  "get_substitution matched pre post [] = []"
| "get_substitution matched pre post [c] = [c]"
| "get_substitution matched pre post (c # x # rest) =
     (if c = CHR ''$'' then
        (if x = CHR ''$'' then CHR ''$'' # get_substitution matched pre post rest
         else if x = CHR ''&'' then matched @ get_substitution matched pre post rest
         else if x = CHR 0x60 then pre @ get_substitution matched pre post rest
         else if x = CHR 0x27 then post @ get_substitution matched pre post rest
         else c # get_substitution matched pre post (x # rest))
      else c # get_substitution matched pre post (x # rest))"

text \<open>\<open>url.replace(/^at:\/\//, baseUrl + 'at://')\<close>.\<close>

definition transform_url :: "string \<Rightarrow> string \<Rightarrow> string" where
  "transform_url base u =
     (if startsWith u ''at://''
      then get_substitution ''at://'' [] (substring u 5) (base @ ''at://'') @ substring u 5
      else u)"

definition resolveRemote :: "env \<Rightarrow> string \<Rightarrow> options \<Rightarrow> state \<Rightarrow> (js_error + json) \<times> state" where
  "resolveRemote e u opts s =
     (let base = (case baseUrl opts of None \<Rightarrow> DEFAULT_BASE_URL | Some b \<Rightarrow> b);
          transformedUrl = transform_url base u
      in case fetchWithTimeout e (RemoteFetch, transformedUrl) s of
           (Inl err, s1) \<Rightarrow> (Inl err, s1)
         | (Inr resp, s1) \<Rightarrow>
             if \<not> ok resp then (Inl (remote_status_error (status resp)), s1)
             else (json_body resp, s1))"

text \<open>The exported \<open>resolve\<close>; \<open>const { mode = 'local' } = options\<close> gives the default.\<close>

definition resolve ::
  "env \<Rightarrow> pds_endpoints \<Rightarrow> string \<Rightarrow> options \<Rightarrow> state \<Rightarrow> (js_error + json) option \<times> state" where
  "resolve e pds u opts s =
     (let m = (case mode opts of None \<Rightarrow> ''local'' | Some x \<Rightarrow> x)
      in if m = ''remote'' then
           (case resolveRemote e u opts s of (r, s1) \<Rightarrow> (Some r, s1))
         else if m = ''local'' then resolveLocal e pds u opts s
         else
           (case resolveLocal e pds u opts s of
              (Some (Inl err), s1) \<Rightarrow>
                (case resolveRemote e u opts s1 of (r, s2) \<Rightarrow> (Some r, s2))
            | (r, s1) \<Rightarrow> (r, s1)))"

definition clearCaches :: "state \<Rightarrow> state" where
  "clearCaches s = clearCache (s\<lparr>did_cache := []\<rparr>)"

text \<open>
  The states the module can be in: it starts with empty caches, and the only ways in are
  the two exported functions. The random supply belongs to the environment and may be
  replenished between calls.
\<close>

inductive reachable :: "env \<Rightarrow> pds_endpoints \<Rightarrow> state \<Rightarrow> bool" for e pds where
  initial: "reachable e pds \<lparr> trace = [], randoms = rs, handle_cache = [], did_cache = [] \<rparr>"
| after_resolve: "reachable e pds s \<Longrightarrow> resolve e pds u opts s = (r, s') \<Longrightarrow> reachable e pds s'"
| after_clearCaches: "reachable e pds s \<Longrightarrow> reachable e pds (clearCaches s)"
| more_randoms: "reachable e pds s \<Longrightarrow> reachable e pds (s\<lparr>randoms := rs\<rparr>)"

section \<open>Requests and example environments used in the statements\<close>

text \<open>The request \<open>queryEndpoint\<close> issues for a base URL and a handle.\<close>

definition resolveHandle_url :: "env \<Rightarrow> string \<Rightarrow> string \<Rightarrow> request" where
  "resolveHandle_url e b handle =
     (XrpcQuery, b @ ''/xrpc/com.atproto.identity.resolveHandle?handle=''
                  @ encodeURIComponent e handle)"

text \<open>An environment in which every request is rejected by the network.\<close>

definition failing_env :: env where
  "failing_env =
     \<lparr> fetch = (\<lambda>t r. Inl (JsError ''TypeError'' ''Failed to fetch'')),
       date_now = (\<lambda>t. 0),
       encodeURIComponent = (\<lambda>x. x),
       url_with_params = (\<lambda>u ps. u @ ''?name='' @ snd (ps ! 0) @ ''&type='' @ snd (ps ! 1)) \<rparr>"


text \<open>A fresh module state with a supply of seven random outcomes.\<close>

definition bob_state :: state where
  "bob_state =
     \<lparr> trace = [], randoms = [0, 0, 24, 80, 81, 7, 3], handle_cache = [], did_cache = [] \<rparr>"

text \<open>The handle cache right after the \<open>set\<close> of \<open>cacheResult\<close>, before any eviction.\<close>

definition cache_after_set :: "env \<Rightarrow> string \<Rightarrow> resolution \<Rightarrow> state \<Rightarrow> (string \<times> handle_entry) list" where
  "cache_after_set e handle result s =
     map_set handle \<lparr> data = result, timestamp = date_now e (trace s) \<rparr> (handle_cache s)"

text \<open>A cache holding one thousand entries with increasing timestamps.\<close>

definition example_resolution :: resolution where
  "example_resolution =
     \<lparr> did = ''did:plc:abc123'', method = ''wellknown'', endpoint = None, provider = None \<rparr>"

definition full_cache :: "(string \<times> handle_entry) list" where
  "full_cache =
     map (\<lambda>i. (replicate (Suc i) (CHR ''k''),
               \<lparr> data = example_resolution, timestamp = int i \<rparr>)) [0..<1000]"

definition full_state :: state where
  "full_state = \<lparr> trace = [], randoms = [], handle_cache = full_cache, did_cache = [] \<rparr>"

text \<open>The requests issued between two states, none of them to the remote aggregator.\<close>

definition local_requests :: "state \<Rightarrow> state \<Rightarrow> bool" where
  "local_requests s s' =
     (\<exists>reqs. trace s' = trace s @ reqs \<and> (\<forall>r \<in> set reqs. fst r \<noteq> RemoteFetch))"

text \<open>A step that leaves the DID cache alone and issues no remote request.\<close>

definition handle_step :: "state \<Rightarrow> state \<Rightarrow> bool" where
  "handle_step s s' = (did_cache s' = did_cache s \<and> local_requests s s')"

text \<open>Every key of the DID cache is a \<open>did:plc:\<close> DID.\<close>

definition did_cache_plc :: "state \<Rightarrow> bool" where
  "did_cache_plc s = (\<forall>k \<in> fst ` set (did_cache s). startsWith k ''did:plc:'')"

text \<open>
  An environment in which the remote aggregator and the PLC directory answer and every
  other request is rejected by the network.
\<close>

definition example_env :: env where
  "example_env =
     \<lparr> fetch = (\<lambda>t r.
         if fst r = RemoteFetch then
           Inr \<lparr> status = 200, json_body = Inr (JObj [(''uri'', JStr (snd r))]),
                 text_body = Inr [] \<rparr>
         else if fst r = PlcLookup then
           Inr \<lparr> status = 200,
                 json_body = Inr (JObj [(''service'',
                   JArr [JObj [(''type'', JStr ''AtprotoPersonalDataServer''),
                               (''serviceEndpoint'', JStr ''https://pds.example'')]])]),
                 text_body = Inr [] \<rparr>
         else Inl (JsError ''TypeError'' ''Failed to fetch'')),
       date_now = (\<lambda>t. int (length t)),
       encodeURIComponent = (\<lambda>x. x),
       url_with_params = (\<lambda>u ps. u @ ''?name='' @ snd (ps ! 0) @ ''&type='' @ snd (ps ! 1)) \<rparr>"

text \<open>Option objects and a state reached by one local resolution of a \<open>did:plc:\<close> URL.\<close>

definition local_options :: options where
  "local_options = \<lparr> mode = Some ''local'', baseUrl = None \<rparr>"

definition plc_state :: state where
  "plc_state = snd (resolve example_env PDS_ENDPOINTS ''at://did:plc:abc123'' local_options bob_state)"

definition auto_options :: "string \<Rightarrow> options" where
  "auto_options m = \<lparr> mode = Some m, baseUrl = None \<rparr>"



section \<open>Properties of the parser\<close>

lemma split_on_nonempty: "split_on c s \<noteq> []"
  by (induction s) (auto split: list.splits)

text \<open>
  Claim C1, as stated, fails: parsing \<open>at://alice.test//xyz\<close> gives a null collection
  together with the record key \<open>xyz\<close>, because an empty path segment is mapped to null
  and never rejected.
\<close>

theorem validateUrl_rkey_without_collection:
  "validateUrl ''at://alice.test//xyz'' =
     Inr \<lparr> identifier = ''alice.test'', collection = None, rkey = Some ''xyz'' \<rparr>"
  by (simp add: validateUrl_def startsWith_def substring_def or_null_def)

text \<open>
  Claim C1, amended: for every parsed AT-URL whose record key is set, the string has at
  least three path segments after the scheme, and the collection is set exactly when the
  second segment is not empty; when it is set it is that segment.
\<close>

theorem validateUrl_rkey_collection:
  assumes "validateUrl url = Inr p" and "rkey p \<noteq> None"
  shows "3 \<le> length (split_on (CHR ''/'') (substring url 5))
         \<and> (collection p \<noteq> None \<longleftrightarrow> split_on (CHR ''/'') (substring url 5) ! 1 \<noteq> [])
         \<and> (split_on (CHR ''/'') (substring url 5) ! 1 \<noteq> [] \<longrightarrow>
              collection p = Some (split_on (CHR ''/'') (substring url 5) ! 1))"
  using assms
  by (auto simp: validateUrl_def or_null_def Let_def split: if_splits)

theorem validateUrl_rkey_collection_witness:
  "validateUrl ''at://alice.test/app.bsky.feed.post/xyz'' =
     Inr \<lparr> identifier = ''alice.test'', collection = Some ''app.bsky.feed.post'',
           rkey = Some ''xyz'' \<rparr>
   \<and> 3 \<le> length (split_on (CHR ''/'') (substring ''at://alice.test/app.bsky.feed.post/xyz'' 5))
   \<and> split_on (CHR ''/'') (substring ''at://alice.test/app.bsky.feed.post/xyz'' 5) ! 1
       = ''app.bsky.feed.post''"
proof -
  have p: "validateUrl ''at://alice.test/app.bsky.feed.post/xyz'' =
     Inr \<lparr> identifier = ''alice.test'', collection = Some ''app.bsky.feed.post'',
           rkey = Some ''xyz'' \<rparr>"
    by (simp add: validateUrl_def startsWith_def substring_def or_null_def)
  have r: "rkey \<lparr> identifier = ''alice.test'', collection = Some ''app.bsky.feed.post'',
           rkey = Some ''xyz'' \<rparr> \<noteq> None"
    by simp
  from validateUrl_rkey_collection [OF p r] p show ?thesis
    by (simp add: substring_def)
qed

text \<open>
  Claim C9: every string that begins with \<open>at://\<close> parses; the parser raises no format
  error for it. The scheme alone parses to the empty identifier with no collection and no
  record key.
\<close>

theorem validateUrl_accepts_prefix:
  "startsWith url ''at://'' \<Longrightarrow>
     (\<exists>p. validateUrl url = Inr p
          \<and> identifier p = hd (split_on (CHR ''/'') (substring url 5)))
     \<and> validateUrl ''at://'' = Inr \<lparr> identifier = '''', collection = None, rkey = None \<rparr>"
proof -
  assume pre: "startsWith url ''at://''"
  let ?parts = "split_on (CHR ''/'') (substring url 5)"
  have ne: "?parts \<noteq> []" by (rule split_on_nonempty)
  then have "\<not> length ?parts < 1" by (cases ?parts) auto
  moreover have "?parts ! 0 = hd ?parts" using ne by (simp add: hd_conv_nth)
  ultimately have "\<exists>p. validateUrl url = Inr p \<and> identifier p = hd ?parts"
    using pre by (simp add: validateUrl_def Let_def)
  moreover have "validateUrl ''at://'' = Inr \<lparr> identifier = '''', collection = None, rkey = None \<rparr>"
    by (simp add: validateUrl_def startsWith_def substring_def or_null_def)
  ultimately show ?thesis by blast
qed

theorem validateUrl_accepts_prefix_witness:
  "startsWith ''at://bob.example/%%/?'' ''at://''
   \<and> validateUrl ''at://bob.example/%%/?'' =
       Inr \<lparr> identifier = ''bob.example'', collection = Some ''%%'', rkey = Some ''?'' \<rparr>"
proof -
  have pre: "startsWith ''at://bob.example/%%/?'' ''at://''"
    by (simp add: startsWith_def)
  from validateUrl_accepts_prefix [OF pre] obtain p where
    "validateUrl ''at://bob.example/%%/?'' = Inr p" by blast
  moreover have "validateUrl ''at://bob.example/%%/?'' =
       Inr \<lparr> identifier = ''bob.example'', collection = Some ''%%'', rkey = Some ''?'' \<rparr>"
    by (simp add: validateUrl_def startsWith_def substring_def or_null_def)
  ultimately show ?thesis using pre by simp
qed

section \<open>Properties of the directory strategy\<close>

lemma queryEndpoint_state:
  "queryEndpoint e b h s = (r, s') \<Longrightarrow> s' = s\<lparr>trace := trace s @ [resolveHandle_url e b h]\<rparr>"
  by (auto simp: queryEndpoint_def do_fetch_def resolveHandle_url_def Let_def)

lemma getRandomServerFromAll_in_pool:
  "getRandomServerFromAll pds r = Some sv \<Longrightarrow> sv \<in> set (getAllServers pds)"
  by (auto simp: getRandomServerFromAll_def Let_def split: if_splits)

lemma draw_server_in_pool:
  "draw_server pds a tried rs = Some (Some sv, rs') \<Longrightarrow> sv \<in> set (getAllServers pds)"
  by (induction rs) (auto simp: Let_def getRandomServerFromAll_in_pool split: if_splits)

lemma try_servers_trace:
  "try_servers e pds h a k tried s = (r, s') \<Longrightarrow>
     \<exists>picked. trace s' = trace s @ map (\<lambda>sv. resolveHandle_url e (''https://'' @ sv) h) picked
        \<and> distinct picked \<and> set picked \<inter> set tried = {}
        \<and> set picked \<subseteq> set (getAllServers pds) \<and> length picked \<le> k"
proof (induction k arbitrary: tried s)
  case 0
  then show ?case by auto
next
  case (Suc k)
  show ?case
  proof (cases "draw_server pds a tried (randoms s)")
    case None
    with Suc.prems show ?thesis by auto
  next
    case (Some p)
    obtain server rs where p: "p = (server, rs)" by (cases p)
    show ?thesis
    proof (cases server)
      case None
      with Some p Suc.prems show ?thesis by auto
    next
      case sv: (Some sv)
      show ?thesis
      proof (cases "sv = [] \<or> sv \<in> set tried")
        case True
        with Some p sv Suc.prems show ?thesis by auto
      next
        case False
        have pool: "sv \<in> set (getAllServers pds)"
          using Some p sv by (auto dest: draw_server_in_pool)
        obtain q s1 where q: "queryEndpoint e (''https://'' @ sv) h (s\<lparr>randoms := rs\<rparr>) = (q, s1)"
          by (cases "queryEndpoint e (''https://'' @ sv) h (s\<lparr>randoms := rs\<rparr>)")
        then have s1: "trace s1 = trace s @ [resolveHandle_url e (''https://'' @ sv) h]"
          by (auto dest: queryEndpoint_state)
        show ?thesis
        proof (cases q)
          case (Inr res)
          with Some p sv False q Suc.prems have "s' = s1" by auto
          with s1 pool False show ?thesis
            by (intro exI [of _ "[sv]"]) auto
        next
          case (Inl err)
          with Some p sv False q Suc.prems
          have "try_servers e pds h a k (tried @ [sv]) s1 = (r, s')" by auto
          from Suc.IH [OF this] obtain picked where
            pk: "trace s' = trace s1 @ map (\<lambda>sv. resolveHandle_url e (''https://'' @ sv) h) picked"
              "distinct picked" "set picked \<inter> set (tried @ [sv]) = {}"
              "set picked \<subseteq> set (getAllServers pds)" "length picked \<le> k"
            by blast
          with s1 pool False show ?thesis
            by (intro exI [of _ "sv # picked"]) auto
        qed
      qed
    qed
  qed
qed

text \<open>
  Claim C7: one resolution attempt of the directory strategy queries the primary endpoint
  once and then pool hosts that are pairwise different, at most \<open>min 5 N\<close> of them for a
  pool of \<open>N\<close> hosts, whatever the hosts answer; when the primary endpoint is not itself a
  pool host, as in the program's catalogue, no base URL is queried twice.
\<close>

theorem XrpcHandleResolver_resolve_hosts:
  "\<exists>picked.
      trace (snd (XrpcHandleResolver_resolve e pds h s)) =
        trace s @ map (\<lambda>b. resolveHandle_url e b h)
                    (primary pds # map ((@) ''https://'') picked)
      \<and> distinct picked
      \<and> set picked \<subseteq> set (getAllServers pds)
      \<and> length picked \<le> min 5 (length (getAllServers pds))
      \<and> (primary pds \<notin> (@) ''https://'' ` set (getAllServers pds) \<longrightarrow>
            distinct (primary pds # map ((@) ''https://'') picked))"
proof -
  obtain q s1 where q: "queryEndpoint e (primary pds) h s = (q, s1)"
    by (cases "queryEndpoint e (primary pds) h s")
  then have s1: "trace s1 = trace s @ [resolveHandle_url e (primary pds) h]"
    by (auto dest: queryEndpoint_state)
  let ?a = "getAllServers pds"
  show ?thesis
  proof (cases "isl q \<and> ?a \<noteq> []")
    case False
    then have "snd (XrpcHandleResolver_resolve e pds h s) = s1"
      using q by (auto simp: XrpcHandleResolver_resolve_def Let_def split: sum.splits)
    with s1 show ?thesis by (intro exI [of _ "[]"]) simp
  next
    case True
    obtain r s' where t: "try_servers e pds h ?a (min 5 (length ?a)) [] s1 = (r, s')"
      by (cases "try_servers e pds h ?a (min 5 (length ?a)) [] s1")
    with True q have res: "snd (XrpcHandleResolver_resolve e pds h s) = s'"
      by (auto simp: XrpcHandleResolver_resolve_def Let_def split: sum.splits)
    from try_servers_trace [OF t] obtain picked where
      pk: "trace s' = trace s1 @ map (\<lambda>sv. resolveHandle_url e (''https://'' @ sv) h) picked"
        "distinct picked" "set picked \<subseteq> set ?a" "length picked \<le> min 5 (length ?a)"
      by blast
    have "distinct (map ((@) ''https://'') picked)"
      using pk(2) by (simp add: distinct_map inj_on_def)
    moreover have "primary pds \<notin> (@) ''https://'' ` set ?a \<Longrightarrow>
                   primary pds \<notin> set (map ((@) ''https://'') picked)"
      using pk(3) by auto
    ultimately show ?thesis
      using pk s1 res by (intro exI [of _ picked]) (simp add: comp_def)
  qed
qed

theorem XrpcHandleResolver_resolve_hosts_witness:
  "primary PDS_ENDPOINTS \<notin> (@) ''https://'' ` set (getAllServers PDS_ENDPOINTS)
   \<and> (\<exists>picked.
         trace (snd (XrpcHandleResolver_resolve failing_env PDS_ENDPOINTS ''bob.example'' bob_state)) =
           trace bob_state @ map (\<lambda>b. resolveHandle_url failing_env b ''bob.example'')
                    (primary PDS_ENDPOINTS # map ((@) ''https://'') picked)
         \<and> length picked \<le> 5
         \<and> distinct (primary PDS_ENDPOINTS # map ((@) ''https://'') picked))"
proof -
  have h: "primary PDS_ENDPOINTS \<notin> (@) ''https://'' ` set (getAllServers PDS_ENDPOINTS)"
    by code_simp
  have n: "length (getAllServers PDS_ENDPOINTS) = 81"
    by (simp add: getAllServers_def PDS_ENDPOINTS_def)
  from XrpcHandleResolver_resolve_hosts [of failing_env PDS_ENDPOINTS "''bob.example''" bob_state]
  obtain picked where
    "trace (snd (XrpcHandleResolver_resolve failing_env PDS_ENDPOINTS ''bob.example'' bob_state)) =
       trace bob_state @ map (\<lambda>b. resolveHandle_url failing_env b ''bob.example'')
                    (primary PDS_ENDPOINTS # map ((@) ''https://'') picked)"
    "length picked \<le> min 5 (length (getAllServers PDS_ENDPOINTS))"
    "primary PDS_ENDPOINTS \<notin> (@) ''https://'' ` set (getAllServers PDS_ENDPOINTS) \<longrightarrow>
       distinct (primary PDS_ENDPOINTS # map ((@) ''https://'') picked)"
    by blast
  with h n show ?thesis by (intro conjI exI [of _ picked]) simp_all
qed









section \<open>Properties of the handle resolver\<close>

text \<open>
  Claim C4: when the cache has no fresh entry and every strategy tried for the handle
  fails, the error thrown by the handle resolver has the message
  \<open>Failed to resolve handle "h" - \<close> followed by one \<open>method: reason\<close> pair per strategy
  tried, separated by commas, in the order dns, wellknown, xrpc; for a handle under
  \<open>.bsky.social\<close> only the directory strategy is tried. Every error the resolver throws
  has this form.
\<close>

theorem UnifiedHandleResolver_resolve_error_pairs:
  assumes miss: "getFromCache e h s = (None, s0)"
  shows
    "(\<not> endsWith h ''.bsky.social''
        \<and> DnsHandleResolver_resolve e h s0 = (Inl e1, s1)
        \<and> WellKnownHandleResolver_resolve e h s1 = (Inl e2, s2)
        \<and> XrpcHandleResolver_resolve e pds h s2 = (Some (Inl e3), s3)
      \<longrightarrow> UnifiedHandleResolver_resolve e pds h s =
            (Some (Inl (Error (''Failed to resolve handle '' @ [CHR 0x22] @ h @ [CHR 0x22]
                               @ '' - dns: '' @ message e1
                               @ '', wellknown: '' @ message e2
                               @ '', xrpc: '' @ message e3))), s3))
     \<and> (endsWith h ''.bsky.social''
        \<and> XrpcHandleResolver_resolve e pds h s0 = (Some (Inl e3), s3)
      \<longrightarrow> UnifiedHandleResolver_resolve e pds h s =
            (Some (Inl (Error (''Failed to resolve handle '' @ [CHR 0x22] @ h @ [CHR 0x22]
                               @ '' - xrpc: '' @ message e3))), s3))
     \<and> (\<forall>err s'. UnifiedHandleResolver_resolve e pds h s = (Some (Inl err), s') \<longrightarrow>
           (\<exists>reasons. err = failed_to_resolve h reasons
              \<and> map fst reasons =
                  (if endsWith h ''.bsky.social'' then [''xrpc'']
                   else [''dns'', ''wellknown'', ''xrpc''])))"
proof (intro conjI impI allI)
  assume "\<not> endsWith h ''.bsky.social''
        \<and> DnsHandleResolver_resolve e h s0 = (Inl e1, s1)
        \<and> WellKnownHandleResolver_resolve e h s1 = (Inl e2, s2)
        \<and> XrpcHandleResolver_resolve e pds h s2 = (Some (Inl e3), s3)"
  with miss show "UnifiedHandleResolver_resolve e pds h s =
            (Some (Inl (Error (''Failed to resolve handle '' @ [CHR 0x22] @ h @ [CHR 0x22]
                               @ '' - dns: '' @ message e1
                               @ '', wellknown: '' @ message e2
                               @ '', xrpc: '' @ message e3))), s3)"
    by (simp add: UnifiedHandleResolver_resolve_def attempt_dns_def attempt_wellknown_def
        attempt_xrpc_def failed_to_resolve_def errorDetails_def)
next
  assume "endsWith h ''.bsky.social''
        \<and> XrpcHandleResolver_resolve e pds h s0 = (Some (Inl e3), s3)"
  with miss show "UnifiedHandleResolver_resolve e pds h s =
            (Some (Inl (Error (''Failed to resolve handle '' @ [CHR 0x22] @ h @ [CHR 0x22]
                               @ '' - xrpc: '' @ message e3))), s3)"
    by (simp add: UnifiedHandleResolver_resolve_def attempt_dns_def attempt_wellknown_def
        attempt_xrpc_def failed_to_resolve_def errorDetails_def)
next
  fix err s'
  assume r: "UnifiedHandleResolver_resolve e pds h s = (Some (Inl err), s')"
  show "\<exists>reasons. err = failed_to_resolve h reasons
              \<and> map fst reasons =
                  (if endsWith h ''.bsky.social'' then [''xrpc'']
                   else [''dns'', ''wellknown'', ''xrpc''])"
  proof (cases "endsWith h ''.bsky.social''")
    case True
    with r miss show ?thesis
      by (auto simp: UnifiedHandleResolver_resolve_def attempt_dns_def attempt_wellknown_def
          attempt_xrpc_def split: prod.splits option.splits sum.splits)
  next
    case False
    with r miss show ?thesis
      by (auto simp: UnifiedHandleResolver_resolve_def attempt_dns_def attempt_wellknown_def
          attempt_xrpc_def split: prod.splits option.splits sum.splits)
  qed
qed


theorem UnifiedHandleResolver_resolve_error_pairs_witness:
  "getFromCache failing_env ''bob.example'' bob_state = (None, bob_state)
   \<and> \<not> endsWith ''bob.example'' ''.bsky.social''
   \<and> fst (UnifiedHandleResolver_resolve failing_env PDS_ENDPOINTS ''bob.example'' bob_state) =
       Some (Inl (Error (''Failed to resolve handle '' @ [CHR 0x22] @ ''bob.example'' @ [CHR 0x22]
         @ '' - dns: DNS resolution failed for handle: bob.example''
         @ '', wellknown: Failed to fetch''
         @ '', xrpc: XRPC resolution failed for handle: bob.example'')))"
proof -
  let ?s1 = "snd (DnsHandleResolver_resolve failing_env ''bob.example'' bob_state)"
  let ?s2 = "snd (WellKnownHandleResolver_resolve failing_env ''bob.example'' ?s1)"
  let ?s3 = "snd (XrpcHandleResolver_resolve failing_env PDS_ENDPOINTS ''bob.example'' ?s2)"
  have m: "getFromCache failing_env ''bob.example'' bob_state = (None, bob_state)"
    by code_simp
  have b: "\<not> endsWith ''bob.example'' ''.bsky.social''"
    by code_simp
  have d: "DnsHandleResolver_resolve failing_env ''bob.example'' bob_state =
             (Inl (Error ''DNS resolution failed for handle: bob.example''), ?s1)"
    by code_simp
  have w: "WellKnownHandleResolver_resolve failing_env ''bob.example'' ?s1 =
             (Inl (TypeError ''Failed to fetch''), ?s2)"
    by code_simp
  have x: "XrpcHandleResolver_resolve failing_env PDS_ENDPOINTS ''bob.example'' ?s2 =
             (Some (Inl (Error ''XRPC resolution failed for handle: bob.example'')), ?s3)"
    by code_simp
  from UnifiedHandleResolver_resolve_error_pairs [OF m,
         of "Error ''DNS resolution failed for handle: bob.example''" ?s1
            "TypeError ''Failed to fetch''" ?s2 PDS_ENDPOINTS
            "Error ''XRPC resolution failed for handle: bob.example''" ?s3] b d w x
  have "UnifiedHandleResolver_resolve failing_env PDS_ENDPOINTS ''bob.example'' bob_state =
          (Some (Inl (Error (''Failed to resolve handle '' @ [CHR 0x22] @ ''bob.example'' @ [CHR 0x22]
             @ '' - dns: '' @ message (Error ''DNS resolution failed for handle: bob.example'')
             @ '', wellknown: '' @ message (TypeError ''Failed to fetch'')
             @ '', xrpc: '' @ message (Error ''XRPC resolution failed for handle: bob.example'')))),
           ?s3)"
    by blast
  with m b show ?thesis by simp
qed

lemma fold_map_delete:
  "fold map_delete ks c = filter (\<lambda>p. fst p \<notin> set ks) c"
proof (induction ks arbitrary: c)
  case Nil
  then show ?case by simp
next
  case (Cons k ks)
  have "filter (\<lambda>p. fst p \<notin> set ks) (map_delete k c) = filter (\<lambda>p. fst p \<notin> set (k # ks)) c"
    by (auto simp: map_delete_def intro: filter_cong)
  with Cons.IH [of "map_delete k c"] show ?case by simp
qed

lemma length_map_set:
  "length (map_set k v m) = (if k \<in> fst ` set m then length m else Suc (length m))"
  by (induction m) auto

lemma keys_map_set: "fst ` set (map_set k v m) = insert k (fst ` set m)"
  by (induction m) auto

lemma distinct_map_set:
  "distinct (map fst m) \<Longrightarrow> distinct (map fst (map_set k v m))"
proof (induction m)
  case Nil
  then show ?case by simp
next
  case (Cons p m)
  then show ?case
    using keys_map_set [of k v m] by (auto simp: image_iff)
qed

lemma evict_split:
  fixes c :: "('k \<times> 'v) list" and f :: "'k \<times> 'v \<Rightarrow> int" and n :: nat
  assumes d: "distinct (map fst c)"
  defines "es \<equiv> sort_key f c"
  defines "rm \<equiv> map fst (take n es)"
  shows "mset (filter (\<lambda>p. fst p \<notin> set rm) c) = mset (drop n es)"
    and "distinct rm"
    and "\<forall>p \<in> set c. fst p \<in> set rm \<longleftrightarrow> p \<in> set (take n es)"
proof -
  have ms: "mset es = mset c" by (simp add: es_def)
  then have "mset (map fst es) = mset (map fst c)" by (metis mset_map)
  with d have de: "distinct (map fst es)" by (metis mset_eq_imp_distinct_iff)
  have "map fst es = map fst (take n es) @ map fst (drop n es)"
    by (metis append_take_drop_id map_append)
  with de have dj: "distinct (map fst (take n es))" "distinct (map fst (drop n es))"
    "set (map fst (take n es)) \<inter> set (map fst (drop n es)) = {}"
    by (metis distinct_append)+
  show "distinct rm" using dj(1) by (simp add: rm_def)
  have t: "filter (\<lambda>p. fst p \<notin> set rm) (take n es) = []"
    by (auto simp: rm_def filter_empty_conv)
  have dr: "filter (\<lambda>p. fst p \<notin> set rm) (drop n es) = drop n es"
    using dj(3) by (auto simp: rm_def filter_id_conv)
  have "filter (\<lambda>p. fst p \<notin> set rm) es =
          filter (\<lambda>p. fst p \<notin> set rm) (take n es) @ filter (\<lambda>p. fst p \<notin> set rm) (drop n es)"
    by (metis append_take_drop_id filter_append)
  with t dr have fe: "filter (\<lambda>p. fst p \<notin> set rm) es = drop n es" by simp
  have "mset (filter (\<lambda>p. fst p \<notin> set rm) c) = filter_mset (\<lambda>p. fst p \<notin> set rm) (mset es)"
    using ms by simp
  also have "\<dots> = mset (filter (\<lambda>p. fst p \<notin> set rm) es)"
    by simp
  also have "\<dots> = mset (drop n es)" using fe by simp
  finally show "mset (filter (\<lambda>p. fst p \<notin> set rm) c) = mset (drop n es)" .
  show "\<forall>p \<in> set c. fst p \<in> set rm \<longleftrightarrow> p \<in> set (take n es)"
  proof
    fix p assume "p \<in> set c"
    then have pe: "p \<in> set es" using ms by (metis mset_eq_setD)
    show "fst p \<in> set rm \<longleftrightarrow> p \<in> set (take n es)"
    proof
      assume "fst p \<in> set rm"
      then have "fst p \<notin> set (map fst (drop n es))" using dj(3) by (auto simp: rm_def)
      then have "p \<notin> set (drop n es)" by auto
      with pe show "p \<in> set (take n es)"
        by (metis Un_iff append_take_drop_id set_append)
    next
      assume "p \<in> set (take n es)"
      then show "fst p \<in> set rm" by (auto simp: rm_def)
    qed
  qed
qed

lemma sorted_take_drop_le:
  fixes f :: "'a \<Rightarrow> int"
  assumes "sorted (map f es)" "p \<in> set (take n es)" "q \<in> set (drop n es)"
  shows "f p \<le> f q"
proof -
  have "sorted (map f (take n es) @ map f (drop n es))"
    using assms(1) by (metis append_take_drop_id map_append)
  then show ?thesis using assms(2,3) by (auto simp: sorted_append)
qed

text \<open>
  Claim C5: an insert into the handle cache that leaves at most 1000 entries removes
  nothing. The insert that takes the cache past 1000 entries removes exactly
  \<open>size div 5\<close> of them (\<open>floor(size \<times> 0.2)\<close>), \<open>size\<close> being the number of entries
  after the insert, and no removed entry has a later timestamp than an entry that stays.
  The keys of a \<open>Map\<close> are distinct.
\<close>

theorem cacheResult_eviction:
  assumes d: "distinct (map fst (handle_cache s))"
  shows "(length (cache_after_set e h res s) \<le> 1000 \<longrightarrow>
            handle_cache (cacheResult e h res s) = cache_after_set e h res s)
       \<and> (length (cache_after_set e h res s) > 1000 \<longrightarrow>
            (\<exists>removed.
               distinct removed
               \<and> set removed \<subseteq> fst ` set (cache_after_set e h res s)
               \<and> length removed = length (cache_after_set e h res s) div 5
               \<and> handle_cache (cacheResult e h res s) =
                   filter (\<lambda>p. fst p \<notin> set removed) (cache_after_set e h res s)
               \<and> length (handle_cache (cacheResult e h res s)) =
                   length (cache_after_set e h res s) - length (cache_after_set e h res s) div 5
               \<and> (\<forall>p \<in> set (cache_after_set e h res s). \<forall>q \<in> set (cache_after_set e h res s).
                     fst p \<in> set removed \<and> fst q \<notin> set removed \<longrightarrow>
                     timestamp (snd p) \<le> timestamp (snd q))))"
proof (intro conjI impI)
  assume "length (cache_after_set e h res s) \<le> 1000"
  then show "handle_cache (cacheResult e h res s) = cache_after_set e h res s"
    by (simp add: cacheResult_def cache_after_set_def Let_def)
next
  let ?c = "cache_after_set e h res s"
  let ?f = "\<lambda>p :: string \<times> handle_entry. timestamp (snd p)"
  let ?es = "sort_key ?f ?c"
  let ?n = "length ?c div 5"
  let ?rm = "map fst (take ?n ?es)"
  assume big: "length ?c > 1000"
  have dc: "distinct (map fst ?c)"
    using d by (simp add: cache_after_set_def distinct_map_set)
  have res: "handle_cache (cacheResult e h res s) = filter (\<lambda>p. fst p \<notin> set ?rm) ?c"
    using big by (simp add: cacheResult_def cache_after_set_def Let_def fold_map_delete)
  have ms: "mset ?es = mset ?c" by simp
  then have se: "set ?es = set ?c" by (metis mset_eq_setD)
  have le: "length ?es = length ?c" by simp
  from evict_split [OF dc, where f = ?f and n = ?n] have
    sp: "mset (filter (\<lambda>p. fst p \<notin> set ?rm) ?c) = mset (drop ?n ?es)"
    and dr: "distinct ?rm"
    and mem: "\<forall>p \<in> set ?c. fst p \<in> set ?rm \<longleftrightarrow> p \<in> set (take ?n ?es)"
    by blast+
  have sub: "set ?rm \<subseteq> fst ` set ?c"
  proof
    fix k assume "k \<in> set ?rm"
    then obtain p where "p \<in> set (take ?n ?es)" "k = fst p" by auto
    then have "p \<in> set ?es" "k = fst p" by (auto dest: in_set_takeD)
    with se show "k \<in> fst ` set ?c" by blast
  qed
  have lr: "length ?rm = ?n" using le by simp
  have "length (filter (\<lambda>p. fst p \<notin> set ?rm) ?c) = length (drop ?n ?es)"
    using sp by (metis size_mset)
  then have lc: "length (handle_cache (cacheResult e h res s)) = length ?c - ?n"
    using res le by simp
  have srt: "sorted (map ?f ?es)" by (rule sorted_sort_key)
  have ord: "\<forall>p \<in> set ?c. \<forall>q \<in> set ?c. fst p \<in> set ?rm \<and> fst q \<notin> set ?rm \<longrightarrow>
               timestamp (snd p) \<le> timestamp (snd q)"
  proof (intro ballI impI)
    fix p q assume p: "p \<in> set ?c" and q: "q \<in> set ?c"
      and k: "fst p \<in> set ?rm \<and> fst q \<notin> set ?rm"
    from mem p k have pt: "p \<in> set (take ?n ?es)" by blast
    from mem q k have "q \<notin> set (take ?n ?es)" by blast
    moreover from q se have "q \<in> set ?es" by simp
    ultimately have qd: "q \<in> set (drop ?n ?es)"
      by (metis Un_iff append_take_drop_id set_append)
    from sorted_take_drop_le [OF srt pt qd] show "timestamp (snd p) \<le> timestamp (snd q)" .
  qed
  from dr sub lr res lc ord
  show "\<exists>removed.
               distinct removed
               \<and> set removed \<subseteq> fst ` set ?c
               \<and> length removed = length ?c div 5
               \<and> handle_cache (cacheResult e h res s) =
                   filter (\<lambda>p. fst p \<notin> set removed) ?c
               \<and> length (handle_cache (cacheResult e h res s)) =
                   length ?c - length ?c div 5
               \<and> (\<forall>p \<in> set ?c. \<forall>q \<in> set ?c.
                     fst p \<in> set removed \<and> fst q \<notin> set removed \<longrightarrow>
                     timestamp (snd p) \<le> timestamp (snd q))"
    by (intro exI [of _ ?rm]) blast
qed

theorem cacheResult_eviction_witness:
  "distinct (map fst (handle_cache full_state))
   \<and> length (cache_after_set failing_env ''bob.example'' example_resolution full_state) = 1001
   \<and> length (handle_cache (cacheResult failing_env ''bob.example'' example_resolution full_state))
       = 801
   \<and> handle_cache (cacheResult failing_env ''bob.example'' example_resolution bob_state)
       = [(''bob.example'', \<lparr> data = example_resolution, timestamp = 0 \<rparr>)]"
proof -
  have d: "distinct (map fst (handle_cache full_state))"
    by (simp add: full_state_def full_cache_def distinct_map comp_def inj_on_def)
  have "''bob.example'' \<notin> fst ` set (handle_cache full_state)"
    by (auto simp: full_state_def full_cache_def)
  then have l: "length (cache_after_set failing_env ''bob.example'' example_resolution full_state) = 1001"
    by (simp add: cache_after_set_def length_map_set) (simp add: full_state_def full_cache_def)
  have d0: "distinct (map fst (handle_cache bob_state))"
    by (simp add: bob_state_def)
  have c0: "cache_after_set failing_env ''bob.example'' example_resolution bob_state
             = [(''bob.example'', \<lparr> data = example_resolution, timestamp = 0 \<rparr>)]"
    by (simp add: cache_after_set_def bob_state_def failing_env_def)
  from cacheResult_eviction [OF d, of failing_env "''bob.example''" example_resolution] l
  have "length (handle_cache (cacheResult failing_env ''bob.example'' example_resolution full_state))
       = 801"
    by auto
  moreover
  from cacheResult_eviction [OF d0, of failing_env "''bob.example''" example_resolution] c0
  have "handle_cache (cacheResult failing_env ''bob.example'' example_resolution bob_state)
       = [(''bob.example'', \<lparr> data = example_resolution, timestamp = 0 \<rparr>)]"
    by simp
  ultimately show ?thesis using d l by blast
qed

section \<open>Properties of the facade\<close>

lemma local_requests_refl: "local_requests s s"
  by (simp add: local_requests_def)

lemma local_requests_trans:
  "local_requests s s1 \<Longrightarrow> local_requests s1 s2 \<Longrightarrow> local_requests s s2"
  by (auto simp: local_requests_def)

lemma handle_step_refl: "handle_step s s"
  by (simp add: handle_step_def local_requests_refl)

lemma handle_step_trans: "handle_step s s1 \<Longrightarrow> handle_step s1 s2 \<Longrightarrow> handle_step s s2"
  by (auto simp: handle_step_def intro: local_requests_trans)

lemma do_fetch_step:
  "do_fetch e (origin, u) s = (r, s') \<Longrightarrow> origin \<noteq> RemoteFetch \<Longrightarrow> handle_step s s'"
  by (auto simp: do_fetch_def handle_step_def local_requests_def)

lemma queryProvider_step: "queryProvider e p h s = (r, s') \<Longrightarrow> handle_step s s'"
  by (auto simp: queryProvider_def Let_def split: prod.splits dest!: do_fetch_step)

lemma query_providers_step: "query_providers e ps h s = (rs, s') \<Longrightarrow> handle_step s s'"
proof (induction ps arbitrary: s rs)
  case Nil
  then show ?case by (simp add: handle_step_refl)
next
  case (Cons p ps)
  then show ?case
    by (auto simp: Let_def split: prod.splits
        intro: handle_step_trans dest: queryProvider_step)
qed

lemma DnsHandleResolver_resolve_step:
  "DnsHandleResolver_resolve e h s = (r, s') \<Longrightarrow> handle_step s s'"
  by (auto simp: DnsHandleResolver_resolve_def Let_def
      split: prod.splits option.splits dest: query_providers_step)

lemma WellKnownHandleResolver_resolve_step:
  "WellKnownHandleResolver_resolve e h s = (r, s') \<Longrightarrow> handle_step s s'"
  by (auto simp: WellKnownHandleResolver_resolve_def Let_def split: prod.splits
      dest!: do_fetch_step)

lemma queryEndpoint_step: "queryEndpoint e b h s = (r, s') \<Longrightarrow> handle_step s s'"
  by (auto simp: queryEndpoint_def Let_def split: prod.splits dest!: do_fetch_step)

lemma randoms_step: "handle_step (s\<lparr>randoms := rs\<rparr>) s' \<Longrightarrow> handle_step s s'"
  by (simp add: handle_step_def local_requests_def)

lemma try_servers_step:
  "try_servers e pds h a k tried s = (r, s') \<Longrightarrow> handle_step s s'"
proof (induction k arbitrary: tried s)
  case 0
  then show ?case by (auto simp: handle_step_refl)
next
  case (Suc k)
  show ?case
  proof (cases "draw_server pds a tried (randoms s)")
    case None
    with Suc.prems show ?thesis
      by (auto simp: handle_step_def local_requests_def)
  next
    case (Some p)
    obtain server rs where p: "p = (server, rs)" by (cases p)
    have r0: "handle_step s (s\<lparr>randoms := rs\<rparr>)"
      by (simp add: handle_step_def local_requests_def)
    show ?thesis
    proof (cases "\<exists>sv. server = Some sv \<and> sv \<noteq> [] \<and> sv \<notin> set tried")
      case False
      with Some p Suc.prems have "s' = s\<lparr>randoms := rs\<rparr>"
        by (auto split: option.splits if_splits)
      with r0 show ?thesis by simp
    next
      case True
      then obtain sv where sv: "server = Some sv" "sv \<noteq> []" "sv \<notin> set tried" by blast
      obtain q s1 where q: "queryEndpoint e (''https://'' @ sv) h (s\<lparr>randoms := rs\<rparr>) = (q, s1)"
        by (cases "queryEndpoint e (''https://'' @ sv) h (s\<lparr>randoms := rs\<rparr>)")
      then have s1: "handle_step s s1"
        by (auto dest!: queryEndpoint_step intro: randoms_step)
      show ?thesis
      proof (cases q)
        case (Inr res)
        with Some p sv q Suc.prems have "s' = s1" by auto
        with s1 show ?thesis by simp
      next
        case (Inl err)
        with Some p sv q Suc.prems
        have "try_servers e pds h a k (tried @ [sv]) s1 = (r, s')" by auto
        from Suc.IH [OF this] s1 show ?thesis by (rule handle_step_trans [rotated])
      qed
    qed
  qed
qed

lemma XrpcHandleResolver_resolve_step:
  "XrpcHandleResolver_resolve e pds h s = (r, s') \<Longrightarrow> handle_step s s'"
  by (auto simp: XrpcHandleResolver_resolve_def Let_def split: prod.splits sum.splits if_splits
      dest!: queryEndpoint_step try_servers_step intro: handle_step_trans)

lemma getFromCache_step: "getFromCache e h s = (r, s') \<Longrightarrow> handle_step s s'"
  by (auto simp: getFromCache_def Let_def handle_step_def local_requests_def
      split: option.splits if_splits)

lemma cacheResult_step: "handle_step s (cacheResult e h res s)"
  by (simp add: cacheResult_def Let_def handle_step_def local_requests_def)

lemma attempt_dns_step: "attempt_dns e h s = (acc, s') \<Longrightarrow> handle_step s s'"
  by (auto simp: attempt_dns_def handle_step_refl split: if_splits prod.splits sum.splits
      dest: DnsHandleResolver_resolve_step)

lemma attempt_wellknown_step: "attempt_wellknown e h acc s = (acc', s') \<Longrightarrow> handle_step s s'"
  by (auto simp: attempt_wellknown_def handle_step_refl split: if_splits prod.splits sum.splits
      dest: WellKnownHandleResolver_resolve_step)

lemma attempt_xrpc_step: "attempt_xrpc e pds h acc s = (acc', s') \<Longrightarrow> handle_step s s'"
  by (auto simp: attempt_xrpc_def handle_step_refl
      split: if_splits prod.splits sum.splits option.splits
      dest: XrpcHandleResolver_resolve_step)

lemma UnifiedHandleResolver_resolve_step:
  assumes "UnifiedHandleResolver_resolve e pds h s = (r, s')"
  shows "handle_step s s'"
proof -
  obtain c s0 where g: "getFromCache e h s = (c, s0)" by (cases "getFromCache e h s")
  then have h0: "handle_step s s0" by (rule getFromCache_step)
  show ?thesis
  proof (cases c)
    case (Some cached)
    with g assms have "s' = s0" by (simp add: UnifiedHandleResolver_resolve_def)
    with h0 show ?thesis by simp
  next
    case None
    obtain acc1 s1 where a1: "attempt_dns e h s0 = (acc1, s1)" by (cases "attempt_dns e h s0")
    obtain acc2 s2 where a2: "attempt_wellknown e h acc1 s1 = (acc2, s2)"
      by (cases "attempt_wellknown e h acc1 s1")
    obtain acc3 s3 where a3: "attempt_xrpc e pds h acc2 s2 = (acc3, s3)"
      by (cases "attempt_xrpc e pds h acc2 s2")
    have h3: "handle_step s s3"
      using h0 attempt_dns_step [OF a1] attempt_wellknown_step [OF a2] attempt_xrpc_step [OF a3]
      by (blast intro: handle_step_trans)
    from assms g None a1 a2 a3 have "s' = s3 \<or> (\<exists>res. s' = cacheResult e h res s3)"
      by (auto simp: UnifiedHandleResolver_resolve_def split: option.splits prod.splits)
    with h3 show ?thesis
      by (auto intro: handle_step_trans cacheResult_step)
  qed
qed

lemma resolveHandle_step: "resolveHandle e pds h s = (r, s') \<Longrightarrow> handle_step s s'"
  by (auto simp: resolveHandle_def split: prod.splits option.splits sum.splits if_splits
      dest: UnifiedHandleResolver_resolve_step)

lemma fetchWithTimeout_step:
  "fetchWithTimeout e (origin, u) s = (r, s') \<Longrightarrow> origin \<noteq> RemoteFetch \<Longrightarrow> handle_step s s'"
  by (auto simp: fetchWithTimeout_def Let_def split: prod.splits dest!: do_fetch_step)

lemma handle_step_plc: "handle_step s s' \<Longrightarrow> did_cache_plc s \<Longrightarrow> did_cache_plc s'"
  by (simp add: handle_step_def did_cache_plc_def)

lemma did_cache_plc_set:
  assumes "did_cache_plc s" and "startsWith d ''did:plc:''"
  shows "did_cache_plc (s\<lparr>did_cache := map_set d c (did_cache s)\<rparr>)"
  unfolding did_cache_plc_def
proof
  fix k
  assume "k \<in> fst ` set (did_cache (s\<lparr>did_cache := map_set d c (did_cache s)\<rparr>))"
  then have "k \<in> fst ` set (map_set d c (did_cache s))" by simp
  then have "k = d \<or> k \<in> fst ` set (did_cache s)"
    unfolding keys_map_set by blast
  with assms show "startsWith k ''did:plc:''"
    unfolding did_cache_plc_def by blast
qed

lemma handle_step_local: "handle_step s s' \<Longrightarrow> local_requests s s'"
  by (simp add: handle_step_def)

lemma local_requests_did_cache:
  "local_requests s s' \<Longrightarrow> local_requests s (s'\<lparr>did_cache := c\<rparr>)"
  by (simp add: local_requests_def)

lemma resolveDid_cases:
  assumes "resolveDid e d s = (r, s')"
  shows "s' = s
       \<or> (startsWith d ''did:plc:''
           \<and> (\<exists>q s1. fetchWithTimeout e (PlcLookup, ''https://plc.directory/'' @ d) s = (q, s1)
                 \<and> (s' = s1 \<or> (\<exists>c. s' = s1\<lparr>did_cache := map_set d c (did_cache s1)\<rparr>))))"
proof (cases "\<exists>ep. (case map_of (did_cache s) d of
              Some cached \<Rightarrow>
                if date_now e (trace s) - cached_at cached < CACHE_TTL
                then Some (serviceEndpoint cached) else None
            | None \<Rightarrow> None) = Some ep")
  case True
  with assms show ?thesis by (auto simp: resolveDid_def)
next
  case False
  then have n: "(case map_of (did_cache s) d of
              Some cached \<Rightarrow>
                if date_now e (trace s) - cached_at cached < CACHE_TTL
                then Some (serviceEndpoint cached) else None
            | None \<Rightarrow> None) = None" by auto
  show ?thesis
  proof (cases "startsWith d ''did:plc:''")
    case False
    with assms n show ?thesis by (simp add: resolveDid_def split: if_splits)
  next
    case True
    obtain q s1 where f: "fetchWithTimeout e (PlcLookup, ''https://plc.directory/'' @ d) s = (q, s1)"
      by (cases "fetchWithTimeout e (PlcLookup, ''https://plc.directory/'' @ d) s")
    from assms n True f have "s' = s1 \<or> (\<exists>c. s' = s1\<lparr>did_cache := map_set d c (did_cache s1)\<rparr>)"
      by (auto simp: resolveDid_def split: sum.splits if_splits option.splits)
    with True f show ?thesis by blast
  qed
qed

lemma resolveDid_local: "resolveDid e d s = (r, s') \<Longrightarrow> local_requests s s'"
  by (drule resolveDid_cases)
     (auto simp: local_requests_refl
       dest!: fetchWithTimeout_step handle_step_local intro: local_requests_did_cache)

lemma resolveDid_plc:
  assumes "resolveDid e d s = (r, s')" and "did_cache_plc s"
  shows "did_cache_plc s'"
proof -
  from resolveDid_cases [OF assms(1)] show ?thesis
  proof
    assume "s' = s" with assms(2) show ?thesis by simp
  next
    assume "startsWith d ''did:plc:''
           \<and> (\<exists>q s1. fetchWithTimeout e (PlcLookup, ''https://plc.directory/'' @ d) s = (q, s1)
                 \<and> (s' = s1 \<or> (\<exists>c. s' = s1\<lparr>did_cache := map_set d c (did_cache s1)\<rparr>)))"
    then obtain q s1 where p: "startsWith d ''did:plc:''"
      and f: "fetchWithTimeout e (PlcLookup, ''https://plc.directory/'' @ d) s = (q, s1)"
      and s': "s' = s1 \<or> (\<exists>c. s' = s1\<lparr>did_cache := map_set d c (did_cache s1)\<rparr>)"
      by blast
    from f have "handle_step s s1" by (rule fetchWithTimeout_step) simp
    then have "did_cache_plc s1" using assms(2) by (rule handle_step_plc)
    with s' p show ?thesis
      by (auto intro: did_cache_plc_set)
  qed
qed

lemma resolveLocal_frame:
  assumes "resolveLocal e pds u opts s = (r, s')"
  shows "local_requests s s' \<and> (did_cache_plc s \<longrightarrow> did_cache_plc s')"
proof (cases "validateUrl u")
  case (Inl err)
  with assms show ?thesis by (simp add: resolveLocal_def local_requests_refl)
next
  case (Inr parsed)
  obtain x s1 where h: "(case parseIdentifier (identifier parsed) of
                   Did v \<Rightarrow> (Some (Inr v), s)
                 | Handle v \<Rightarrow> resolveHandle e pds v s) = (x, s1)"
    by (cases "(case parseIdentifier (identifier parsed) of
                   Did v \<Rightarrow> (Some (Inr v), s)
                 | Handle v \<Rightarrow> resolveHandle e pds v s)")
  then have h1: "handle_step s s1"
    by (auto simp: handle_step_refl split: parsed_identifier.splits dest: resolveHandle_step)
  show ?thesis
  proof (cases "\<exists>d. x = Some (Inr d)")
    case False
    with assms Inr h have "s' = s1"
      by (auto simp: resolveLocal_def split: option.splits sum.splits)
    with h1 show ?thesis by (auto dest: handle_step_local handle_step_plc)
  next
    case True
    then obtain d where x: "x = Some (Inr d)" by blast
    obtain q s2 where rd: "resolveDid e d s1 = (q, s2)" by (cases "resolveDid e d s1")
    have l2: "local_requests s s2"
      using h1 resolveDid_local [OF rd] by (blast intro: local_requests_trans handle_step_local)
    have p2: "did_cache_plc s \<longrightarrow> did_cache_plc s2"
      using h1 resolveDid_plc [OF rd] by (blast dest: handle_step_plc)
    show ?thesis
    proof (cases q)
      case (Inl err)
      with assms Inr h x rd have "s' = s2" by (simp add: resolveLocal_def)
      with l2 p2 show ?thesis by simp
    next
      case (Inr ep)
      with assms \<open>validateUrl u = Inr parsed\<close> h x rd
      obtain xu f where "fetchWithTimeout e (RecordFetch, xu) s2 = (f, s')"
        by (auto simp: resolveLocal_def Let_def split: prod.splits sum.splits if_splits)
      then have "handle_step s2 s'" by (rule fetchWithTimeout_step) simp
      with l2 p2 show ?thesis
        by (blast intro: local_requests_trans handle_step_local dest: handle_step_plc)
    qed
  qed
qed

lemma resolveRemote_did_cache:
  "resolveRemote e u opts s = (r, s') \<Longrightarrow> did_cache s' = did_cache s"
  by (auto simp: resolveRemote_def fetchWithTimeout_def do_fetch_def Let_def
      split: prod.splits sum.splits if_splits)

lemma resolve_plc:
  assumes "resolve e pds u opts s = (r, s')" and "did_cache_plc s"
  shows "did_cache_plc s'"
proof -
  obtain x s1 where l: "resolveLocal e pds u opts s = (x, s1)"
    by (cases "resolveLocal e pds u opts s")
  with assms(2) have p1: "did_cache_plc s1" by (auto dest: resolveLocal_frame)
  obtain y s2 where r1: "resolveRemote e u opts s1 = (y, s2)"
    by (cases "resolveRemote e u opts s1")
  obtain z s3 where r0: "resolveRemote e u opts s = (z, s3)"
    by (cases "resolveRemote e u opts s")
  have p2: "did_cache_plc s2" using p1 resolveRemote_did_cache [OF r1]
    by (simp add: did_cache_plc_def)
  have p3: "did_cache_plc s3" using assms(2) resolveRemote_did_cache [OF r0]
    by (simp add: did_cache_plc_def)
  from assms(1) l r1 r0 have "s' = s1 \<or> s' = s2 \<or> s' = s3"
    by (auto simp: resolve_def Let_def split: if_splits option.splits sum.splits prod.splits)
  with p1 p2 p3 show ?thesis by blast
qed

lemma reachable_plc: "reachable e pds s \<Longrightarrow> did_cache_plc s"
proof (induction rule: reachable.induct)
  case (initial rs)
  then show ?case by (simp add: did_cache_plc_def)
next
  case (after_resolve s u opts r s')
  then show ?case by (blast intro: resolve_plc)
next
  case (after_clearCaches s)
  then show ?case by (simp add: did_cache_plc_def clearCaches_def clearCache_def)
next
  case (more_randoms s rs)
  then show ?case by (simp add: did_cache_plc_def)
qed

lemma did_cache_miss:
  "did_cache_plc s \<Longrightarrow> \<not> startsWith d ''did:plc:'' \<Longrightarrow> map_of (did_cache s) d = None"
  by (auto simp: did_cache_plc_def map_of_eq_None_iff)

text \<open>
  Claim C6: in every state the module can reach, resolving a DID that starts with neither
  \<open>did:plc:\<close> nor \<open>did:web:\<close> fails with the error \<open>Unsupported DID method\<close> and leaves
  the state as it was: no request is issued and no cache is touched. The DID cache only
  ever holds \<open>did:plc:\<close> keys, so it cannot answer for such a DID.
\<close>

theorem resolveDid_unsupported_method:
  assumes "reachable e pds s"
    and "\<not> startsWith d ''did:plc:''" and "\<not> startsWith d ''did:web:''"
  shows "resolveDid e d s = (Inl (Error (''Unsupported DID method: '' @ d)), s)"
  using did_cache_miss [OF reachable_plc [OF assms(1)] assms(2)] assms(2,3)
  by (simp add: resolveDid_def)

lemma web_not_plc: "startsWith d ''did:web:'' \<Longrightarrow> \<not> startsWith d ''did:plc:''"
  by (auto simp: startsWith_def)

text \<open>
  Claim C8: in every state the module can reach, resolving a DID that starts with
  \<open>did:web:\<close> returns \<open>https://\<close> followed by the rest of the DID with every colon
  replaced by a slash, and leaves the state as it was: no request is issued and nothing
  is put into the DID cache.
\<close>

theorem resolveDid_web:
  assumes "reachable e pds s" and "startsWith d ''did:web:''"
  shows "resolveDid e d s = (Inr (JStr (''https://'' @ replace_colons (substring d 8))), s)"
  using did_cache_miss [OF reachable_plc [OF assms(1)] web_not_plc [OF assms(2)]]
    assms(2) web_not_plc [OF assms(2)]
  by (simp add: resolveDid_def)

lemma reachable_plc_state: "reachable example_env PDS_ENDPOINTS plc_state"
proof -
  have "reachable example_env PDS_ENDPOINTS bob_state"
    unfolding bob_state_def by (rule reachable.initial)
  moreover have "resolve example_env PDS_ENDPOINTS ''at://did:plc:abc123'' local_options bob_state
      = (fst (resolve example_env PDS_ENDPOINTS ''at://did:plc:abc123'' local_options bob_state),
         plc_state)"
    by (simp add: plc_state_def)
  ultimately show ?thesis by (rule reachable.after_resolve)
qed

theorem resolveDid_unsupported_method_witness:
  "reachable example_env PDS_ENDPOINTS plc_state
   \<and> did_cache plc_state = [(''did:plc:abc123'', DidEntry (JStr ''https://pds.example'') 1)]
   \<and> resolveDid example_env ''did:key:z6Mk'' plc_state =
       (Inl (Error ''Unsupported DID method: did:key:z6Mk''), plc_state)"
proof -
  have c: "did_cache plc_state = [(''did:plc:abc123'', DidEntry (JStr ''https://pds.example'') 1)]"
    by code_simp
  have n1: "\<not> startsWith ''did:key:z6Mk'' ''did:plc:''" by (simp add: startsWith_def)
  have n2: "\<not> startsWith ''did:key:z6Mk'' ''did:web:''" by (simp add: startsWith_def)
  from resolveDid_unsupported_method [OF reachable_plc_state n1 n2] c reachable_plc_state
  show ?thesis by simp
qed

theorem resolveDid_web_witness:
  "reachable example_env PDS_ENDPOINTS plc_state
   \<and> startsWith ''did:web:example.com:user:alice'' ''did:web:''
   \<and> resolveDid example_env ''did:web:example.com:user:alice'' plc_state =
       (Inr (JStr ''https://example.com/user/alice''), plc_state)"
proof -
  have w: "startsWith ''did:web:example.com:user:alice'' ''did:web:''"
    by (simp add: startsWith_def)
  have "''https://'' @ replace_colons (substring ''did:web:example.com:user:alice'' 8)
          = ''https://example.com/user/alice''"
    by (simp add: replace_colons_def substring_def)
  with resolveDid_web [OF reachable_plc_state w] w reachable_plc_state
  show ?thesis by simp
qed

text \<open>
  Claim C3: with the mode option exactly \<open>local\<close>, the exported \<open>resolve\<close> is the local
  chain: its outcome and final state are those of \<open>resolveLocal\<close>, a failure of the local
  chain is the failure the caller gets, and no request of the call goes to the remote
  aggregator.
\<close>

theorem resolve_local_never_remote:
  assumes "mode opts = Some ''local''"
  shows "resolve e pds u opts s = resolveLocal e pds u opts s
       \<and> local_requests s (snd (resolve e pds u opts s))
       \<and> (\<forall>err s'. resolveLocal e pds u opts s = (Some (Inl err), s') \<longrightarrow>
             resolve e pds u opts s = (Some (Inl err), s'))"
proof -
  have eq: "resolve e pds u opts s = resolveLocal e pds u opts s"
    using assms by (simp add: resolve_def)
  obtain r s' where l: "resolveLocal e pds u opts s = (r, s')"
    by (cases "resolveLocal e pds u opts s")
  from resolveLocal_frame [OF l] have "local_requests s s'" by blast
  with eq l show ?thesis by simp
qed

theorem resolve_local_never_remote_witness:
  "mode local_options = Some ''local''
   \<and> resolve example_env PDS_ENDPOINTS ''at://bob.example/app.bsky.feed.post/xyz''
        local_options bob_state
      = resolveLocal example_env PDS_ENDPOINTS ''at://bob.example/app.bsky.feed.post/xyz''
        local_options bob_state
   \<and> fst (resolve example_env PDS_ENDPOINTS ''at://bob.example/app.bsky.feed.post/xyz''
        local_options bob_state)
      = Some (Inl (Error (''Handle '' @ [CHR 0x22] @ ''bob.example'' @ [CHR 0x22]
                          @ '' not found - user may not exist'')))
   \<and> local_requests bob_state
        (snd (resolve example_env PDS_ENDPOINTS ''at://bob.example/app.bsky.feed.post/xyz''
               local_options bob_state))
   \<and> length (trace (snd (resolve example_env PDS_ENDPOINTS
                ''at://bob.example/app.bsky.feed.post/xyz'' local_options bob_state))) = 9"
proof -
  have m: "mode local_options = Some ''local''" by (simp add: local_options_def)
  have r: "fst (resolve example_env PDS_ENDPOINTS ''at://bob.example/app.bsky.feed.post/xyz''
        local_options bob_state)
      = Some (Inl (Error (''Handle '' @ [CHR 0x22] @ ''bob.example'' @ [CHR 0x22]
                          @ '' not found - user may not exist'')))"
    by code_simp
  have n: "length (trace (snd (resolve example_env PDS_ENDPOINTS
                ''at://bob.example/app.bsky.feed.post/xyz'' local_options bob_state))) = 9"
    by code_simp
  note th = resolve_local_never_remote [OF m, of example_env PDS_ENDPOINTS
         "''at://bob.example/app.bsky.feed.post/xyz''" bob_state]
  from th have eq: "resolve example_env PDS_ENDPOINTS ''at://bob.example/app.bsky.feed.post/xyz''
        local_options bob_state
      = resolveLocal example_env PDS_ENDPOINTS ''at://bob.example/app.bsky.feed.post/xyz''
        local_options bob_state"
    by (rule conjunct1)
  from th have lr: "local_requests bob_state
        (snd (resolve example_env PDS_ENDPOINTS ''at://bob.example/app.bsky.feed.post/xyz''
               local_options bob_state))"
    by (elim conjE)
  show ?thesis
    by (intro conjI) (rule m eq r lr n)+
qed

text \<open>
  Claim C10: a mode string other than \<open>local\<close> and \<open>remote\<close> makes \<open>resolve\<close> behave as
  with \<open>auto\<close>: the local chain runs first, its value is returned when it succeeds, and
  when it fails the outcome is that of the remote resolution started from the state the
  local chain left. With the mode option absent \<open>resolve\<close> behaves as with \<open>local\<close>.
\<close>

theorem resolve_other_mode_is_auto:
  "(m \<noteq> ''local'' \<and> m \<noteq> ''remote'' \<longrightarrow>
      resolve e pds u (opts\<lparr>mode := Some m\<rparr>) s = resolve e pds u (opts\<lparr>mode := Some ''auto''\<rparr>) s
      \<and> (\<forall>v s1. resolveLocal e pds u (opts\<lparr>mode := Some m\<rparr>) s = (Some (Inr v), s1) \<longrightarrow>
            resolve e pds u (opts\<lparr>mode := Some m\<rparr>) s = (Some (Inr v), s1))
      \<and> (\<forall>err s1. resolveLocal e pds u (opts\<lparr>mode := Some m\<rparr>) s = (Some (Inl err), s1) \<longrightarrow>
            resolve e pds u (opts\<lparr>mode := Some m\<rparr>) s =
              (Some (fst (resolveRemote e u (opts\<lparr>mode := Some m\<rparr>) s1)),
               snd (resolveRemote e u (opts\<lparr>mode := Some m\<rparr>) s1)))
      \<and> (\<forall>s1. resolveLocal e pds u (opts\<lparr>mode := Some m\<rparr>) s = (None, s1) \<longrightarrow>
            resolve e pds u (opts\<lparr>mode := Some m\<rparr>) s = (None, s1)))
   \<and> resolve e pds u (opts\<lparr>mode := None\<rparr>) s = resolve e pds u (opts\<lparr>mode := Some ''local''\<rparr>) s"
proof -
  have loc: "\<And>x. resolveLocal e pds u (opts\<lparr>mode := x\<rparr>) s = resolveLocal e pds u opts s"
    by (simp add: resolveLocal_def)
  have rem: "\<And>x t. resolveRemote e u (opts\<lparr>mode := x\<rparr>) t = resolveRemote e u opts t"
    by (simp add: resolveRemote_def)
  have none: "resolve e pds u (opts\<lparr>mode := None\<rparr>) s =
              resolve e pds u (opts\<lparr>mode := Some ''local''\<rparr>) s"
    by (simp add: resolve_def loc)
  have other: "resolve e pds u (opts\<lparr>mode := Some m\<rparr>) s =
      (case resolveLocal e pds u opts s of
         (Some (Inl err), s1) \<Rightarrow>
           (Some (fst (resolveRemote e u opts s1)), snd (resolveRemote e u opts s1))
       | (r, s1) \<Rightarrow> (r, s1))"
    if "m \<noteq> ''local'' \<and> m \<noteq> ''remote''" for m
    using that
    by (simp add: resolve_def loc rem split: prod.splits option.splits sum.splits)
  have auto_mode: "''auto'' \<noteq> ''local'' \<and> ''auto'' \<noteq> ''remote''" by simp
  show ?thesis
  proof (intro conjI impI allI)
    show "resolve e pds u (opts\<lparr>mode := None\<rparr>) s =
          resolve e pds u (opts\<lparr>mode := Some ''local''\<rparr>) s"
      by (rule none)
  next
    assume a: "m \<noteq> ''local'' \<and> m \<noteq> ''remote''"
    show "resolve e pds u (opts\<lparr>mode := Some m\<rparr>) s =
          resolve e pds u (opts\<lparr>mode := Some ''auto''\<rparr>) s"
      by (simp only: other [OF a] other [OF auto_mode])
  next
    fix v s1
    assume a: "m \<noteq> ''local'' \<and> m \<noteq> ''remote''"
      and l: "resolveLocal e pds u (opts\<lparr>mode := Some m\<rparr>) s = (Some (Inr v), s1)"
    from l have "resolveLocal e pds u opts s = (Some (Inr v), s1)" by (simp add: loc)
    then show "resolve e pds u (opts\<lparr>mode := Some m\<rparr>) s = (Some (Inr v), s1)"
      by (simp add: other [OF a])
  next
    fix err s1
    assume a: "m \<noteq> ''local'' \<and> m \<noteq> ''remote''"
      and l: "resolveLocal e pds u (opts\<lparr>mode := Some m\<rparr>) s = (Some (Inl err), s1)"
    from l have "resolveLocal e pds u opts s = (Some (Inl err), s1)" by (simp add: loc)
    then show "resolve e pds u (opts\<lparr>mode := Some m\<rparr>) s =
              (Some (fst (resolveRemote e u (opts\<lparr>mode := Some m\<rparr>) s1)),
               snd (resolveRemote e u (opts\<lparr>mode := Some m\<rparr>) s1))"
      by (simp add: other [OF a] rem)
  next
    fix s1
    assume a: "m \<noteq> ''local'' \<and> m \<noteq> ''remote''"
      and l: "resolveLocal e pds u (opts\<lparr>mode := Some m\<rparr>) s = (None, s1)"
    from l have "resolveLocal e pds u opts s = (None, s1)" by (simp add: loc)
    then show "resolve e pds u (opts\<lparr>mode := Some m\<rparr>) s = (None, s1)"
      by (simp add: other [OF a])
  qed
qed

theorem resolve_other_mode_is_auto_witness:
  "'''' \<noteq> ''local'' \<and> '''' \<noteq> ''remote''
   \<and> fst (resolveLocal example_env PDS_ENDPOINTS ''at://bob.example/app.bsky.feed.post/xyz''
            (auto_options '''') bob_state)
       = Some (Inl (Error (''Handle '' @ [CHR 0x22] @ ''bob.example'' @ [CHR 0x22]
                           @ '' not found - user may not exist'')))
   \<and> resolve example_env PDS_ENDPOINTS ''at://bob.example/app.bsky.feed.post/xyz''
        (auto_options '''') bob_state
      = resolve example_env PDS_ENDPOINTS ''at://bob.example/app.bsky.feed.post/xyz''
        (auto_options ''auto'') bob_state
   \<and> fst (resolve example_env PDS_ENDPOINTS ''at://bob.example/app.bsky.feed.post/xyz''
            (auto_options '''') bob_state)
      = Some (Inr (JObj [(''uri'', JStr ''https://atpi.at://bob.example/app.bsky.feed.post/xyz'')]))
   \<and> last (trace (snd (resolve example_env PDS_ENDPOINTS
                          ''at://bob.example/app.bsky.feed.post/xyz'' (auto_options '''') bob_state)))
      = (RemoteFetch, ''https://atpi.at://bob.example/app.bsky.feed.post/xyz'')"
proof -
  have a: "'''' \<noteq> ''local'' \<and> '''' \<noteq> ''remote''" by simp
  have o: "\<And>m. (auto_options '''')\<lparr>mode := Some m\<rparr> = auto_options m"
    by (simp add: auto_options_def)
  have l: "fst (resolveLocal example_env PDS_ENDPOINTS ''at://bob.example/app.bsky.feed.post/xyz''
            (auto_options '''') bob_state)
       = Some (Inl (Error (''Handle '' @ [CHR 0x22] @ ''bob.example'' @ [CHR 0x22]
                           @ '' not found - user may not exist'')))"
    by code_simp
  have r: "fst (resolve example_env PDS_ENDPOINTS ''at://bob.example/app.bsky.feed.post/xyz''
            (auto_options '''') bob_state)
      = Some (Inr (JObj [(''uri'', JStr ''https://atpi.at://bob.example/app.bsky.feed.post/xyz'')]))"
    by code_simp
  have t: "last (trace (snd (resolve example_env PDS_ENDPOINTS
                          ''at://bob.example/app.bsky.feed.post/xyz'' (auto_options '''') bob_state)))
      = (RemoteFetch, ''https://atpi.at://bob.example/app.bsky.feed.post/xyz'')"
    by code_simp
  from resolve_other_mode_is_auto [of "''''" example_env PDS_ENDPOINTS
         "''at://bob.example/app.bsky.feed.post/xyz''" "auto_options ''''" bob_state] a
  have "resolve example_env PDS_ENDPOINTS ''at://bob.example/app.bsky.feed.post/xyz''
          ((auto_options '''')\<lparr>mode := Some ''''\<rparr>) bob_state
        = resolve example_env PDS_ENDPOINTS ''at://bob.example/app.bsky.feed.post/xyz''
          ((auto_options '''')\<lparr>mode := Some ''auto''\<rparr>) bob_state"
    by blast
  then have eq: "resolve example_env PDS_ENDPOINTS ''at://bob.example/app.bsky.feed.post/xyz''
        (auto_options '''') bob_state
      = resolve example_env PDS_ENDPOINTS ''at://bob.example/app.bsky.feed.post/xyz''
        (auto_options ''auto'') bob_state"
    by (simp only: o)
  show ?thesis
    by (intro conjI) (rule a [THEN conjunct1] a [THEN conjunct2] l eq r t)+
qed

end
